theory Spec2Isabelle
  imports Main "HOL-Library.Word"
begin

section \<open>Data model (model/github.go)\<close>

text \<open>
  The records follow the Go structs field by field. Go's \<open>int\<close> is 64 bits wide on the
  platforms the program targets; the cache timeout is kept as a 64-bit word because it is
  multiplied into a \<open>time.Duration\<close> later. Pointers to \<open>bool\<close> are options. The name
  and token of a scope are \<open>OrgName\<close> and \<open>OrgToken\<close>, apart from the repository's
  \<open>Name\<close> and the global \<open>Token\<close>.
\<close>

record GitHubRepo =
  ID :: int
  Name :: string
  FullName :: string
  Description :: string
  CloneURL :: string
  SSHURL :: string
  HTMLURL :: string
  Private :: bool
  Fork :: bool
  Archived :: bool
  Disabled :: bool
  Language :: string
  UpdatedAt :: string
  PushedAt :: string
  Topics :: "string list"

record GitHubOrgConfig =
  OrgName :: string
  DisplayName :: string
  OrgToken :: string

record GitHubConfig =
  Organization :: string
  Organizations :: "GitHubOrgConfig list"
  Token :: string
  CacheTimeout :: "64 word"
  CloneDir :: string
  UseSSH :: bool
  IncludePersonal :: bool
  ShowUncloned :: "bool option"
  ShowDescription :: "bool option"

text \<open>A point in time is a number of nanoseconds; the JSON form keeps nanoseconds.\<close>

record GitHubCache =
  Repos :: "GitHubRepo list"
  CachedAt :: int
  ExpiresAt :: int

text \<open>The \<open>for ... break\<close> loop of \<open>GetOrganizations\<close> that looks for the legacy name.\<close>

fun orgNamed :: "string \<Rightarrow> GitHubOrgConfig list \<Rightarrow> bool" where
  "orgNamed n [] = False"
| "orgNamed n (org # orgs) = (if OrgName org = n then True else orgNamed n orgs)"

definition GetOrganizations :: "GitHubConfig \<Rightarrow> GitHubOrgConfig list" where
  "GetOrganizations c =
     (let orgs = Organizations c in
      if Organization c \<noteq> [] then
        (if \<not> orgNamed (Organization c) orgs
         then orgs @ [\<lparr>OrgName = Organization c, DisplayName = Organization c,
                        OrgToken = Token c\<rparr>]
         else orgs)
      else orgs)"

text \<open>
  \<open>GetTokenForOrg\<close>: the first scope of that name with a non-empty token, then the global
  token, then the environment variable \<open>GITHUB_TOKEN\<close>, whose value is the first argument.
\<close>

fun orgSpecificToken :: "string \<Rightarrow> GitHubOrgConfig list \<Rightarrow> string option" where
  "orgSpecificToken n [] = None"
| "orgSpecificToken n (org # orgs) =
     (if OrgName org = n \<and> OrgToken org \<noteq> [] then Some (OrgToken org)
      else orgSpecificToken n orgs)"

definition GetTokenForOrg :: "string \<Rightarrow> GitHubConfig \<Rightarrow> string \<Rightarrow> string" where
  "GetTokenForOrg envToken c orgName =
     (case orgSpecificToken orgName (Organizations c) of
        Some t \<Rightarrow> t
      | None \<Rightarrow> if Token c \<noteq> [] then Token c else envToken)"

definition ShouldShowDescription :: "GitHubConfig \<Rightarrow> bool" where
  "ShouldShowDescription c = (case ShowDescription c of None \<Rightarrow> True | Some b \<Rightarrow> b)"

definition ShouldShowUncloned :: "GitHubConfig \<Rightarrow> bool" where
  "ShouldShowUncloned c = (case ShowUncloned c of None \<Rightarrow> True | Some b \<Rightarrow> b)"

text \<open>The number of entries of a scope list that carry a given name.\<close>

fun countNamed :: "string \<Rightarrow> GitHubOrgConfig list \<Rightarrow> nat" where
  "countNamed n [] = 0"
| "countNamed n (org # orgs) = (if OrgName org = n then 1 else 0) + countNamed n orgs"

definition mkOrg :: "string \<Rightarrow> GitHubOrgConfig" where
  "mkOrg n = \<lparr>OrgName = n, DisplayName = [], OrgToken = []\<rparr>"

definition mkConfig :: "string \<Rightarrow> GitHubOrgConfig list \<Rightarrow> string \<Rightarrow> GitHubConfig" where
  "mkConfig legacy orgs tok =
     \<lparr>Organization = legacy, Organizations = orgs, Token = tok, CacheTimeout = 0,
      CloneDir = [], UseSSH = False, IncludePersonal = False,
      ShowUncloned = None, ShowDescription = None\<rparr>"

section \<open>String helpers (package strings)\<close>

fun HasPrefix :: "string \<Rightarrow> string \<Rightarrow> bool" where
  "HasPrefix s [] = True"
| "HasPrefix [] (p # ps) = False"
| "HasPrefix (c # cs) (p # ps) = (c = p \<and> HasPrefix cs ps)"

fun Contains :: "string \<Rightarrow> string \<Rightarrow> bool" where
  "Contains [] sub = (sub = [])"
| "Contains (c # cs) sub = (HasPrefix (c # cs) sub \<or> Contains cs sub)"

text \<open>\<open>strings.Split\<close> at a one-byte separator: \<open>n\<close> separators give \<open>n + 1\<close> parts.\<close>

fun Split :: "string \<Rightarrow> char \<Rightarrow> string list" where
  "Split [] sep = [[]]"
| "Split (c # cs) sep =
     (if c = sep then [] # Split cs sep
      else (case Split cs sep of [] \<Rightarrow> [[c]] | p # ps \<Rightarrow> (c # p) # ps))"

section \<open>TTL cache (github/cache.go)\<close>

text \<open>
  What the operating system and the libraries contribute is kept apart from the program:
  \<open>World\<close> is the state that calls read and change: the paths that exist, the clock,
  which directory creations and file writes fail, and a record of the calls made to
  \<open>git.Clone\<close>. A path that is not in \<open>files\<close> does not exist; one that exists either
  cannot be read as a file (a directory, a file without read permission) or has contents
  of a type \<open>'b\<close> of byte sequences. Every \<open>time.Now()\<close> takes the next reading of the
  clock. \<open>Sys\<close> holds what lies outside this repository and is taken as given: the home
  directory (\<open>None\<close> when \<open>os.UserHomeDir\<close> fails), the value of \<open>GITHUB_TOKEN\<close>,
  \<open>filepath.Join\<close>, \<open>filepath.Dir\<close>, \<open>filepath.Base\<close>, the JSON encoder and decoder
  for cache entries, and the \<open>git\<close> package's \<open>Clone\<close>. \<open>os.MkdirAll\<close> is modelled by
  its success or failure only. Logging through \<open>slog\<close> has no effect on results and is
  left out.
\<close>

datatype 'b FileNode = Unreadable | Content 'b

record 'b World =
  files :: "string \<rightharpoonup> 'b FileNode"
  clock :: "nat \<Rightarrow> int"
  ticks :: nat
  mkdirFails :: "string \<Rightarrow> bool"
  writeFails :: "string \<Rightarrow> bool"
  cloneCalls :: "(string \<times> string \<times> string) list"

record 'b Sys =
  homeDir :: "string option"
  envToken :: string
  joinPath :: "string list \<Rightarrow> string"
  dirName :: "string \<Rightarrow> string"
  baseName :: "string \<Rightarrow> string"
  marshal :: "GitHubCache \<Rightarrow> 'b option"
  unmarshal :: "'b \<Rightarrow> GitHubCache option"
  gitClone :: "string \<Rightarrow> string \<Rightarrow> string \<Rightarrow> 'b World \<Rightarrow> string + 'b World"

definition timeNow :: "'b World \<Rightarrow> int \<times> 'b World" where
  "timeNow w = (clock w (ticks w), w\<lparr>ticks := Suc (ticks w)\<rparr>)"

definition getCacheFilePath :: "'b Sys \<Rightarrow> string \<Rightarrow> string" where
  "getCacheFilePath sys org =
     (case homeDir sys of
        None \<Rightarrow> []
      | Some home \<Rightarrow>
          if org = [] then joinPath sys [home, ''.cache'', ''sesh'', ''github'']
          else joinPath sys [home, ''.cache'', ''sesh'', ''github'', org @ ''.json''])"

text \<open>\<open>Get\<close> returns the pair \<open>(repos, found)\<close>; a nil slice is the empty list.\<close>

definition cache_Get :: "'b Sys \<Rightarrow> string \<Rightarrow> 'b World \<Rightarrow> (GitHubRepo list \<times> bool) \<times> 'b World" where
  "cache_Get sys org w =
     (let cachePath = getCacheFilePath sys org in
      case files w cachePath of
        None \<Rightarrow> (([], False), w)
      | Some Unreadable \<Rightarrow> (([], False), w)
      | Some (Content data) \<Rightarrow>
          (case unmarshal sys data of
             None \<Rightarrow> (([], False), w)
           | Some cache \<Rightarrow>
               (let (now, w') = timeNow w in
                if now > ExpiresAt cache then (([], False), w')
                else ((Repos cache, True), w'))))"

text \<open>
  \<open>time.Duration(timeout) * time.Minute\<close> is a product of 64-bit signed integers and
  wraps around; \<open>now.Add\<close> then adds the signed number of nanoseconds.
\<close>

definition minutesDuration :: "64 word \<Rightarrow> int" where
  "minutesDuration timeout = sint (timeout * (60000000000 :: 64 word))"

definition cache_Set :: "'b Sys \<Rightarrow> string \<Rightarrow> GitHubRepo list \<Rightarrow> 64 word \<Rightarrow> 'b World \<Rightarrow> 'b World" where
  "cache_Set sys org repos timeout w =
     (let cachePath = getCacheFilePath sys org in
      if mkdirFails w (dirName sys cachePath) then w
      else
        (let (now, w') = timeNow w;
             cache = \<lparr>Repos = repos, CachedAt = now,
                      ExpiresAt = now + minutesDuration timeout\<rparr>
         in case marshal sys cache of
              None \<Rightarrow> w'
            | Some data \<Rightarrow>
                if writeFails w' cachePath then w'
                else w'\<lparr>files := (files w')(cachePath \<mapsto> Content data)\<rparr>))"

section \<open>What JSON encoding does to strings (encoding/json, unicode/utf8)\<close>

text \<open>
  \<open>encoding/json\<close> writes a string rune by rune and replaces every byte that does not
  start a valid UTF-8 sequence by the replacement rune U+FFFD (bytes EF BF BD); decoding
  gives back what was written. \<open>runeLen\<close> is the width that \<open>utf8.DecodeRuneInString\<close>
  reports for a valid sequence at the head of \<open>c # cs\<close> (\<open>None\<close> where it reports
  \<open>RuneError\<close> with width 1): \<open>lead\<close> gives, for a first byte, the width and the range
  accepted for the second byte. \<open>toValidUTF8\<close> is the string that comes back from an
  encode and decode, \<open>utf8Valid\<close> is \<open>utf8.ValidString\<close>.
\<close>

definition lead :: "nat \<Rightarrow> (nat \<times> nat \<times> nat) option" where
  "lead b =
     (if b < 128 then Some (1, 0, 0)
      else if 194 \<le> b \<and> b \<le> 223 then Some (2, 128, 191)
      else if b = 224 then Some (3, 160, 191)
      else if b = 237 then Some (3, 128, 159)
      else if 225 \<le> b \<and> b \<le> 239 then Some (3, 128, 191)
      else if b = 240 then Some (4, 144, 191)
      else if 241 \<le> b \<and> b \<le> 243 then Some (4, 128, 191)
      else if b = 244 then Some (4, 128, 143)
      else None)"

definition isCont :: "char \<Rightarrow> bool" where
  "isCont c = (128 \<le> (of_char c :: nat) \<and> (of_char c :: nat) \<le> 191)"

definition runeLen :: "char \<Rightarrow> string \<Rightarrow> nat option" where
  "runeLen c cs =
     (case lead (of_char c) of
        None \<Rightarrow> None
      | Some (n, lo, hi) \<Rightarrow>
          if n = 1 then Some 1
          else if length cs < n - 1 then None
          else if (of_char (cs ! 0) :: nat) < lo \<or> hi < (of_char (cs ! 0) :: nat) then None
          else if n = 2 then Some 2
          else if \<not> isCont (cs ! 1) then None
          else if n = 3 then Some 3
          else if \<not> isCont (cs ! 2) then None
          else Some 4)"

fun toValidUTF8 :: "string \<Rightarrow> string" where
  "toValidUTF8 [] = []"
| "toValidUTF8 (c # cs) =
     (case runeLen c cs of
        None \<Rightarrow> [CHR 0xEF, CHR 0xBF, CHR 0xBD] @ toValidUTF8 cs
      | Some n \<Rightarrow> c # take (n - 1) cs @ toValidUTF8 (drop (n - 1) cs))"

fun utf8Valid :: "string \<Rightarrow> bool" where
  "utf8Valid [] = True"
| "utf8Valid (c # cs) =
     (case runeLen c cs of
        None \<Rightarrow> False
      | Some n \<Rightarrow> utf8Valid (drop (n - 1) cs))"

text \<open>A cache entry after an encode and decode: every string of every repository coerced.\<close>

definition coerceRepo :: "GitHubRepo \<Rightarrow> GitHubRepo" where
  "coerceRepo r =
     \<lparr>ID = ID r, Name = toValidUTF8 (Name r), FullName = toValidUTF8 (FullName r),
      Description = toValidUTF8 (Description r), CloneURL = toValidUTF8 (CloneURL r),
      SSHURL = toValidUTF8 (SSHURL r), HTMLURL = toValidUTF8 (HTMLURL r),
      Private = Private r, Fork = Fork r, Archived = Archived r, Disabled = Disabled r,
      Language = toValidUTF8 (Language r), UpdatedAt = toValidUTF8 (UpdatedAt r),
      PushedAt = toValidUTF8 (PushedAt r), Topics = map toValidUTF8 (Topics r)\<rparr>"

definition coerceCache :: "GitHubCache \<Rightarrow> GitHubCache" where
  "coerceCache c =
     \<lparr>Repos = map coerceRepo (Repos c), CachedAt = CachedAt c, ExpiresAt = ExpiresAt c\<rparr>"

definition validRepo :: "GitHubRepo \<Rightarrow> bool" where
  "validRepo r =
     (utf8Valid (Name r) \<and> utf8Valid (FullName r) \<and> utf8Valid (Description r) \<and>
      utf8Valid (CloneURL r) \<and> utf8Valid (SSHURL r) \<and> utf8Valid (HTMLURL r) \<and>
      utf8Valid (Language r) \<and> utf8Valid (UpdatedAt r) \<and> utf8Valid (PushedAt r) \<and>
      list_all utf8Valid (Topics r))"

text \<open>
  The codec law taken from the library: decoding what the encoder wrote gives the entry
  with its strings coerced.
\<close>

definition jsonCodec :: "'b Sys \<Rightarrow> bool" where
  "jsonCodec sys =
     (\<forall>c d. marshal sys c = Some d \<longrightarrow> unmarshal sys d = Some (coerceCache c))"

section \<open>Remote-repo adapter (lister/github.go)\<close>

text \<open>
  The adapter talks to the \<open>github.Client\<close> interface. A call returns the repositories or
  an error, of which the adapter only ever reads the text \<open>err.Error()\<close>; so an error is
  its text. The interface is a record of functions: the same call gives the same answer.
\<close>

record Client =
  ListOrgReposWithToken :: "string \<Rightarrow> string \<Rightarrow> string + GitHubRepo list"
  ListUserReposWithToken :: "string \<Rightarrow> string \<Rightarrow> string + GitHubRepo list"
  ListAuthenticatedUserReposWithToken :: "string \<Rightarrow> string + GitHubRepo list"
  GetAuthenticatedUsername :: "string \<Rightarrow> string + string"

type_synonym RepoMap = "string \<rightharpoonup> GitHubRepo list"

definition effectiveTimeout :: "GitHubConfig \<Rightarrow> 64 word" where
  "effectiveTimeout config = (if CacheTimeout config = 0 then 30 else CacheTimeout config)"

text \<open>The two API attempts of one scope: organization endpoint, user endpoint on "404".\<close>

definition fetchFromAPI :: "Client \<Rightarrow> string \<Rightarrow> string \<Rightarrow> string + GitHubRepo list" where
  "fetchFromAPI cl name token =
     (case ListOrgReposWithToken cl name token of
        Inr repos \<Rightarrow> Inr repos
      | Inl err \<Rightarrow>
          if Contains err ''404'' then ListUserReposWithToken cl name token
          else Inl err)"

text \<open>One iteration of the loop over the scopes; \<open>continue\<close> returns the state as it is.\<close>

definition scopeStep ::
  "'b Sys \<Rightarrow> Client \<Rightarrow> GitHubConfig \<Rightarrow> bool \<Rightarrow> GitHubOrgConfig \<Rightarrow> 'b World \<times> RepoMap \<Rightarrow> 'b World \<times> RepoMap"
where
  "scopeStep sys cl config refresh orgConfig st =
     (let (w, results) = st;
          ((cachedRepos, found), w1) =
             (if \<not> refresh then cache_Get sys (OrgName orgConfig) w else (([], False), w))
      in if found then (w1, results(OrgName orgConfig \<mapsto> cachedRepos))
         else
           (let token = GetTokenForOrg (envToken sys) config (OrgName orgConfig) in
            case fetchFromAPI cl (OrgName orgConfig) token of
              Inl err \<Rightarrow> (w1, results)
            | Inr repos \<Rightarrow>
                (cache_Set sys (OrgName orgConfig) repos (effectiveTimeout config) w1,
                 results(OrgName orgConfig \<mapsto> repos))))"

fun scopeLoop ::
  "'b Sys \<Rightarrow> Client \<Rightarrow> GitHubConfig \<Rightarrow> bool \<Rightarrow> GitHubOrgConfig list \<Rightarrow> 'b World \<times> RepoMap \<Rightarrow> 'b World \<times> RepoMap"
where
  "scopeLoop sys cl config refresh [] st = st"
| "scopeLoop sys cl config refresh (orgConfig # orgs) st =
     scopeLoop sys cl config refresh orgs (scopeStep sys cl config refresh orgConfig st)"

text \<open>The personal-repositories block that follows the loop.\<close>

definition personalStep ::
  "'b Sys \<Rightarrow> Client \<Rightarrow> GitHubConfig \<Rightarrow> bool \<Rightarrow> 'b World \<times> RepoMap \<Rightarrow> 'b World \<times> RepoMap"
where
  "personalStep sys cl config refresh st =
     (let (w, results) = st in
      if IncludePersonal config then
        (let token = GetTokenForOrg (envToken sys) config [] in
         if token \<noteq> [] then
           (case GetAuthenticatedUsername cl token of
              Inl err \<Rightarrow> (w, results)
            | Inr username \<Rightarrow>
                (let ((cachedRepos, found), w1) =
                       (if \<not> refresh then cache_Get sys username w else (([], False), w))
                 in if found then (w1, results(username \<mapsto> cachedRepos))
                    else
                      (case ListAuthenticatedUserReposWithToken cl token of
                         Inl err \<Rightarrow> (w1, results)
                       | Inr personalRepos \<Rightarrow>
                           (cache_Set sys username personalRepos (effectiveTimeout config) w1,
                            results(username \<mapsto> personalRepos)))))
         else (w, results))
      else (w, results))"

definition ListAllReposWithRefresh ::
  "'b Sys \<Rightarrow> Client \<Rightarrow> GitHubConfig \<Rightarrow> bool \<Rightarrow> 'b World \<Rightarrow> 'b World \<times> RepoMap"
where
  "ListAllReposWithRefresh sys cl config refresh w =
     personalStep sys cl config refresh
       (scopeLoop sys cl config refresh (GetOrganizations config) (w, Map.empty))"

text \<open>
  A scope's fetch fails in a world when the cache gives nothing (or a refresh is asked
  for) and the API attempts end in an error.
\<close>

definition cacheMiss :: "'b Sys \<Rightarrow> bool \<Rightarrow> string \<Rightarrow> 'b World \<Rightarrow> bool" where
  "cacheMiss sys refresh name w = (refresh \<or> \<not> snd (fst (cache_Get sys name w)))"

definition fetchFails :: "'b Sys \<Rightarrow> Client \<Rightarrow> GitHubConfig \<Rightarrow> bool \<Rightarrow> string \<Rightarrow> 'b World \<Rightarrow> bool" where
  "fetchFails sys cl config refresh name w =
     (cacheMiss sys refresh name w \<and>
      isl (fetchFromAPI cl name (GetTokenForOrg (envToken sys) config name)))"

text \<open>What one iteration of the loop finds for a scope: the cached list, else the fetched one.\<close>

definition scopeFetch ::
  "'b Sys \<Rightarrow> Client \<Rightarrow> GitHubConfig \<Rightarrow> bool \<Rightarrow> string \<Rightarrow> 'b World \<Rightarrow> GitHubRepo list option"
where
  "scopeFetch sys cl config refresh name w =
     (if \<not> refresh \<and> snd (fst (cache_Get sys name w)) then Some (fst (fst (cache_Get sys name w)))
      else (case fetchFromAPI cl name (GetTokenForOrg (envToken sys) config name) of
              Inl err \<Rightarrow> None
            | Inr repos \<Rightarrow> Some repos))"

text \<open>
  The error that \<open>RealClient.ListOrgReposWithToken\<close> returns (github/client.go): the
  provider's error, which carries an HTTP status, wrapped with the operation and the
  scope's name.
\<close>

record ProviderError =
  StatusCode :: nat
  ErrorText :: string

definition orgListError :: "string \<Rightarrow> ProviderError \<Rightarrow> string" where
  "orgListError org e = ''failed to list repositories for org '' @ org @ '': '' @ ErrorText e"

text \<open>The key under which the personal block stores, when it gets as far as a username.\<close>

definition personalName :: "'b Sys \<Rightarrow> Client \<Rightarrow> GitHubConfig \<Rightarrow> string option" where
  "personalName sys cl config =
     (if IncludePersonal config \<and> GetTokenForOrg (envToken sys) config [] \<noteq> [] then
        (case GetAuthenticatedUsername cl (GetTokenForOrg (envToken sys) config []) of
           Inl err \<Rightarrow> None
         | Inr username \<Rightarrow> Some username)
      else None)"

section \<open>Lister, remote-repo source (lister/github.go)\<close>

text \<open>
  Modelled from the spec: the declarations of \<open>model.SeshSession\<close> and
  \<open>model.SeshSessions\<close> are not among the source files. A session has a source tag, a
  display name, a path and an optional startup command (the fields this code sets; the
  name field is \<open>SessionName\<close> here); a catalog is a directory from key to session
  together with an ordered sequence of keys.
\<close>

record SeshSession =
  Src :: string
  SessionName :: string
  Path :: string
  StartupCommand :: string

record SeshSessions =
  Directory :: "string \<rightharpoonup> SeshSession"
  OrderedIndex :: "string list"

definition homeOrEmpty :: "'b Sys \<Rightarrow> string" where
  "homeOrEmpty sys = (case homeDir sys of None \<Rightarrow> [] | Some h \<Rightarrow> h)"

definition clonePathOf :: "'b Sys \<Rightarrow> GitHubConfig \<Rightarrow> string \<Rightarrow> GitHubRepo \<Rightarrow> string" where
  "clonePathOf sys config scope repo =
     (let cloneDir =
            (if CloneDir config = [] then joinPath sys [homeOrEmpty sys, ''git'']
             else if HasPrefix (CloneDir config) ''~/''
                  then joinPath sys [homeOrEmpty sys, drop 2 (CloneDir config)]
                  else CloneDir config)
      in joinPath sys [cloneDir, ''github.com'', scope, Name repo])"

definition githubKey :: "string \<Rightarrow> GitHubRepo \<Rightarrow> string" where
  "githubKey scope repo = ''github:'' @ scope @ ''/'' @ Name repo"

text \<open>
  The body of the loop over one scope's repositories. The organization loop and the
  personal loop have the same body; they differ in the name shown (\<open>displayName\<close>) and
  agree in the name used for clone path and key (\<open>scope\<close>).
\<close>

definition repoStep ::
  "'b Sys \<Rightarrow> 'b World \<Rightarrow> GitHubConfig \<Rightarrow> string \<Rightarrow> string \<Rightarrow> GitHubRepo \<Rightarrow>
   string list \<times> (string \<rightharpoonup> SeshSession) \<Rightarrow> string list \<times> (string \<rightharpoonup> SeshSession)"
where
  "repoStep sys w config displayName scope repo st =
     (let (orderedIndex, directory) = st in
      if Archived repo \<or> Disabled repo then st
      else
        (let name =
               (if Description repo \<noteq> [] \<and> ShouldShowDescription config
                then displayName @ ''/'' @ Name repo @ '' ('' @ Description repo @ '')''
                else displayName @ ''/'' @ Name repo);
             clonePath = clonePathOf sys config scope repo;
             exists = (files w clonePath \<noteq> None);
             path = (if exists then clonePath
                     else if UseSSH config then SSHURL repo else CloneURL repo)
         in if \<not> exists \<and> \<not> ShouldShowUncloned config then st
            else
              (let key = githubKey scope repo;
                   session =
                     (if \<not> exists
                      then \<lparr>Src = ''github'', SessionName = name, Path = clonePath,
                            StartupCommand =
                              ''git clone '' @ path @ '' '' @ clonePath @ '' && cd '' @ clonePath\<rparr>
                      else \<lparr>Src = ''github'', SessionName = name, Path = path,
                            StartupCommand = []\<rparr>)
               in (orderedIndex @ [key], directory(key \<mapsto> session)))))"

fun repoLoop ::
  "'b Sys \<Rightarrow> 'b World \<Rightarrow> GitHubConfig \<Rightarrow> string \<Rightarrow> string \<Rightarrow> GitHubRepo list \<Rightarrow>
   string list \<times> (string \<rightharpoonup> SeshSession) \<Rightarrow> string list \<times> (string \<rightharpoonup> SeshSession)"
where
  "repoLoop sys w config displayName scope [] st = st"
| "repoLoop sys w config displayName scope (repo # repos) st =
     repoLoop sys w config displayName scope repos
       (repoStep sys w config displayName scope repo st)"

fun orgLoop ::
  "'b Sys \<Rightarrow> 'b World \<Rightarrow> GitHubConfig \<Rightarrow> RepoMap \<Rightarrow> GitHubOrgConfig list \<Rightarrow>
   string list \<times> (string \<rightharpoonup> SeshSession) \<Rightarrow> string list \<times> (string \<rightharpoonup> SeshSession)"
where
  "orgLoop sys w config allRepos [] st = st"
| "orgLoop sys w config allRepos (orgConfig # orgs) st =
     orgLoop sys w config allRepos orgs
       (case allRepos (OrgName orgConfig) of
          None \<Rightarrow> st
        | Some repos \<Rightarrow>
            repoLoop sys w config
              (if DisplayName orgConfig = [] then OrgName orgConfig else DisplayName orgConfig)
              (OrgName orgConfig) repos st)"

definition personalLoop ::
  "'b Sys \<Rightarrow> Client \<Rightarrow> 'b World \<Rightarrow> GitHubConfig \<Rightarrow> RepoMap \<Rightarrow>
   string list \<times> (string \<rightharpoonup> SeshSession) \<Rightarrow> string list \<times> (string \<rightharpoonup> SeshSession)"
where
  "personalLoop sys cl w config allRepos st =
     (if IncludePersonal config then
        (let token = GetTokenForOrg (envToken sys) config [] in
         if token \<noteq> [] then
           (case GetAuthenticatedUsername cl token of
              Inl err \<Rightarrow> st
            | Inr username \<Rightarrow>
                (case allRepos username of
                   None \<Rightarrow> st
                 | Some personalRepos \<Rightarrow>
                     repoLoop sys w config username username personalRepos st))
         else st)
      else st)"

text \<open>
  \<open>listGitHub\<close> from the point where the fetched result map \<open>allRepos\<close> is at hand, and the
  whole function. \<open>ListAllReposWithRefresh\<close> never returns an error, so neither does this.
\<close>

definition catalogOf ::
  "'b Sys \<Rightarrow> Client \<Rightarrow> 'b World \<Rightarrow> GitHubConfig \<Rightarrow> RepoMap \<Rightarrow> SeshSessions"
where
  "catalogOf sys cl w config allRepos =
     (let (orderedIndex, directory) =
            personalLoop sys cl w config allRepos
              (orgLoop sys w config allRepos (GetOrganizations config) ([], Map.empty))
      in \<lparr>Directory = directory, OrderedIndex = orderedIndex\<rparr>)"

definition listGitHub ::
  "'b Sys \<Rightarrow> Client \<Rightarrow> GitHubConfig \<Rightarrow> bool \<Rightarrow> 'b World \<Rightarrow> 'b World \<times> SeshSessions"
where
  "listGitHub sys cl config refresh w =
     (if GetOrganizations config = []
      then (w, \<lparr>Directory = Map.empty, OrderedIndex = []\<rparr>)
      else
        (let (w1, allRepos) = ListAllReposWithRefresh sys cl config refresh w
         in (w1, catalogOf sys cl w1 config allRepos)))"

text \<open>A fetched result map with the archived and the disabled repositories taken out.\<close>

definition live :: "GitHubRepo \<Rightarrow> bool" where
  "live repo = (\<not> Archived repo \<and> \<not> Disabled repo)"

definition liveOnly :: "RepoMap \<Rightarrow> RepoMap" where
  "liveOnly allRepos = (\<lambda>n. map_option (filter live) (allRepos n))"

section \<open>Shorthand resolver (github/shorthand.go)\<close>

text \<open>
  The two patterns are data; \<open>rmatch\<close> is a backtracking matcher with the preference order
  of Go's \<open>regexp\<close> (the match a backtracking search finds first): a repetition tries the
  longest run first and gives characters back one at a time, an optional part is tried
  before it is left out. The continuation \<open>k\<close> matches the rest of the pattern. The
  fragment covers what the two patterns use: literals, \<open>[...]+\<close> over a character class,
  \<open>(...)?\<close>, sequence and numbered groups; \<open>^\<close> and \<open>$\<close> are the start of the match and
  the end test of \<open>FindStringSubmatch\<close> below.
\<close>

datatype regex =
    Lit string
  | Plus1 "char \<Rightarrow> bool"
  | Opt regex
  | Seq regex regex
  | Group nat regex

fun tryLens :: "nat \<Rightarrow> string \<Rightarrow> (string \<Rightarrow> 'a option) \<Rightarrow> 'a option" where
  "tryLens 0 s k = None"
| "tryLens (Suc n) s k =
     (case k (drop (Suc n) s) of Some r \<Rightarrow> Some r | None \<Rightarrow> tryLens n s k)"

fun rmatch ::
  "regex \<Rightarrow> string \<Rightarrow> (nat \<rightharpoonup> string) \<Rightarrow> (string \<Rightarrow> (nat \<rightharpoonup> string) \<Rightarrow> 'a option) \<Rightarrow> 'a option"
where
  "rmatch (Lit l) s caps k = (if HasPrefix s l then k (drop (length l) s) caps else None)"
| "rmatch (Plus1 cls) s caps k =
     tryLens (length (takeWhile cls s)) s (\<lambda>rest. k rest caps)"
| "rmatch (Opt r) s caps k =
     (case rmatch r s caps k of Some x \<Rightarrow> Some x | None \<Rightarrow> k s caps)"
| "rmatch (Seq a b) s caps k = rmatch a s caps (\<lambda>s' caps'. rmatch b s' caps' k)"
| "rmatch (Group i r) s caps k =
     rmatch r s caps (\<lambda>s' caps'. k s' (caps'(i \<mapsto> take (length s - length s') s)))"

text \<open>
  \<open>FindStringSubmatch\<close> for a pattern anchored at both ends with two groups: \<open>None\<close> is
  Go's nil slice, \<open>Some (g1, g2)\<close> a slice of length three whose entries 1 and 2 are the
  groups (the empty string for a group that took no part). \<open>finish\<close> is the \<open>$\<close> of the
  pattern: the match stands only when nothing is left of the input.
\<close>

definition finish :: "string \<Rightarrow> (nat \<rightharpoonup> string) \<Rightarrow> (string \<times> string) option" where
  "finish rest caps =
     (if rest = []
      then Some (case caps 1 of None \<Rightarrow> [] | Some g \<Rightarrow> g,
                 case caps 2 of None \<Rightarrow> [] | Some g \<Rightarrow> g)
      else None)"

definition FindStringSubmatch :: "regex \<Rightarrow> string \<Rightarrow> (string \<times> string) option" where
  "FindStringSubmatch re s = rmatch re s Map.empty finish"

definition MatchString :: "regex \<Rightarrow> string \<Rightarrow> bool" where
  "MatchString re s = (FindStringSubmatch re s \<noteq> None)"

text \<open>The class \<open>[a-zA-Z0-9._-]\<close>.\<close>

definition nameChar :: "char \<Rightarrow> bool" where
  "nameChar c =
     (let n = (of_char c :: nat) in
      (97 \<le> n \<and> n \<le> 122) \<or> (65 \<le> n \<and> n \<le> 90) \<or> (48 \<le> n \<and> n \<le> 57) \<or>
      c = CHR ''.'' \<or> c = CHR ''_'' \<or> c = CHR ''-'')"

text \<open>\<^verbatim>\<open>^([a-zA-Z0-9._-]+)\/([a-zA-Z0-9._-]+)$\<close>\<close>

definition githubShorthandRegex :: regex where
  "githubShorthandRegex =
     Seq (Group 1 (Plus1 nameChar)) (Seq (Lit ''/'') (Group 2 (Plus1 nameChar)))"

text \<open>\<^verbatim>\<open>^(?:https?://)?(?:www\.)?github\.com/([a-zA-Z0-9._-]+)/([a-zA-Z0-9._-]+)(?:\.git)?/?$\<close>\<close>

definition githubURLRegex :: regex where
  "githubURLRegex =
     Seq (Opt (Seq (Lit ''http'') (Seq (Opt (Lit ''s'')) (Lit ''://''))))
    (Seq (Opt (Lit ''www.''))
    (Seq (Lit ''github.com/'')
    (Seq (Group 1 (Plus1 nameChar))
    (Seq (Lit ''/'')
    (Seq (Group 2 (Plus1 nameChar))
    (Seq (Opt (Lit ''.git'')) (Opt (Lit ''/''))))))))"

definition IsGitHubShorthand :: "string \<Rightarrow> bool" where
  "IsGitHubShorthand input =
     (if MatchString githubShorthandRegex input then True
      else if MatchString githubURLRegex input then True
      else False)"

definition ExtractOrgAndRepo :: "string \<Rightarrow> string + (string \<times> string)" where
  "ExtractOrgAndRepo input =
     (case FindStringSubmatch githubShorthandRegex input of
        Some m \<Rightarrow> Inr m
      | None \<Rightarrow>
          (case FindStringSubmatch githubURLRegex input of
             Some m \<Rightarrow> Inr m
           | None \<Rightarrow> Inl (''invalid GitHub shorthand format: '' @ input)))"

definition ConvertToURL :: "string \<Rightarrow> GitHubConfig \<Rightarrow> string + string" where
  "ConvertToURL input config =
     (case ExtractOrgAndRepo input of
        Inl err \<Rightarrow> Inl err
      | Inr (org, repo) \<Rightarrow>
          if UseSSH config then Inr (''git@github.com:'' @ org @ ''/'' @ repo @ ''.git'')
          else Inr (''https://github.com/'' @ org @ ''/'' @ repo @ ''.git''))"

definition HasSuffix :: "string \<Rightarrow> string \<Rightarrow> bool" where
  "HasSuffix s suf = HasPrefix (rev s) (rev suf)"

section \<open>Connector, remote-repo strategy (connector)\<close>

text \<open>
  Modelled from the spec: the declaration of \<open>model.Connection\<close> is not among the source
  files. A connection says whether a session was found, carries the session, and has the
  flags "new" and "register in recency index" (\<open>AddToZoxide\<close>).
\<close>

record Connection =
  Found :: bool
  Session :: SeshSession
  New :: bool
  AddToZoxide :: bool

text \<open>
  \<open>githubStrategy\<close> after the lookup \<open>c.lister.FindGitHubSession(name)\<close>, whose answer is
  the argument \<open>lookup\<close>. The result is an error text or a connection, and the world after
  the call; a call to \<open>git.Clone\<close> that succeeds is recorded in \<open>cloneCalls\<close>.
\<close>

definition runClone :: "'b Sys \<Rightarrow> string \<Rightarrow> string \<Rightarrow> string \<Rightarrow> 'b World \<Rightarrow> string + 'b World" where
  "runClone sys url dir name w =
     (case gitClone sys url dir name w of
        Inl err \<Rightarrow> Inl err
      | Inr w' \<Rightarrow> Inr (w'\<lparr>cloneCalls := cloneCalls w' @ [(url, dir, name)]\<rparr>))"

definition githubStrategy ::
  "'b Sys \<Rightarrow> SeshSession option \<Rightarrow> 'b World \<Rightarrow> (string + Connection) \<times> 'b World"
where
  "githubStrategy sys lookup w =
     (case lookup of
        None \<Rightarrow>
          (Inr \<lparr>Found = False,
                Session = \<lparr>Src = [], SessionName = [], Path = [], StartupCommand = []\<rparr>,
                New = False, AddToZoxide = False\<rparr>, w)
      | Some session \<Rightarrow>
          (let connected = (\<lambda>sess. Inr \<lparr>Found = True, Session = sess, New = True,
                                         AddToZoxide = True\<rparr>)
           in if StartupCommand session \<noteq> [] \<and> Contains (StartupCommand session) ''git clone''
              then
                (let parts = Split (StartupCommand session) CHR '' ''
                 in if length parts \<ge> 4 \<and> parts ! 0 = ''git'' \<and> parts ! 1 = ''clone''
                    then
                      (let repoURL = parts ! 2;
                           clonePath = parts ! 3;
                           parentDir = dirName sys clonePath
                       in if mkdirFails w parentDir
                          then (Inl ''failed to create parent directory'', w)
                          else if files w clonePath = None
                          then (case runClone sys repoURL parentDir (baseName sys clonePath) w of
                                  Inl err \<Rightarrow> (Inl (''failed to clone repository: '' @ err), w)
                                | Inr w' \<Rightarrow>
                                    (connected (session\<lparr>Path := clonePath,
                                                        StartupCommand := []\<rparr>), w'))
                          else (connected (session\<lparr>Path := clonePath,
                                                    StartupCommand := []\<rparr>), w))
                    else (connected session, w))
              else (connected session, w)))"

text \<open>The startup command that \<open>listGitHub\<close> writes for a repository that is not cloned.\<close>

definition cloneCommand :: "string \<Rightarrow> string \<Rightarrow> string" where
  "cloneCommand url clonePath = ''git clone '' @ url @ '' '' @ clonePath @ '' && cd '' @ clonePath"

section \<open>Concrete inputs\<close>

text \<open>
  A small system for evaluating the definitions: file contents are cache entries
  themselves (the encoder and decoder are exact inverses), paths are joined with \<open>/\<close>,
  and \<open>git.Clone\<close> creates the directory it is asked for.
\<close>

fun joinSlash :: "string list \<Rightarrow> string" where
  "joinSlash [] = []"
| "joinSlash [p] = p"
| "joinSlash (p # q # ps) = p @ ''/'' @ joinSlash (q # ps)"

definition dirSlash :: "string \<Rightarrow> string" where
  "dirSlash p = joinSlash (butlast (Split p CHR ''/''))"

definition baseSlash :: "string \<Rightarrow> string" where
  "baseSlash p = last (Split p CHR ''/'')"

definition cloneOk :: "string \<Rightarrow> string \<Rightarrow> string \<Rightarrow> GitHubCache World \<Rightarrow> string + GitHubCache World" where
  "cloneOk url dir name w = Inr (w\<lparr>files := (files w)(dir @ ''/'' @ name \<mapsto> Unreadable)\<rparr>)"

definition sysEx :: "GitHubCache Sys" where
  "sysEx = \<lparr>homeDir = Some ''/home/u'', envToken = [], joinPath = joinSlash,
            dirName = dirSlash, baseName = baseSlash, marshal = Some, unmarshal = Some,
            gitClone = cloneOk\<rparr>"

definition worldEx :: "GitHubCache World" where
  "worldEx = \<lparr>files = Map.empty, clock = (\<lambda>n. 1000), ticks = 0,
              mkdirFails = (\<lambda>p. False), writeFails = (\<lambda>p. False), cloneCalls = []\<rparr>"

definition mkRepo :: "string \<Rightarrow> bool \<Rightarrow> bool \<Rightarrow> GitHubRepo" where
  "mkRepo n archived disabled =
     \<lparr>ID = 1, Name = n, FullName = ''acme/'' @ n, Description = [],
      CloneURL = ''https://github.com/acme/'' @ n @ ''.git'',
      SSHURL = ''git@github.com:acme/'' @ n @ ''.git'',
      HTMLURL = ''https://github.com/acme/'' @ n,
      Private = False, Fork = False, Archived = archived, Disabled = disabled,
      Language = [], UpdatedAt = [], PushedAt = [], Topics = []\<rparr>"

definition cfgDup :: GitHubConfig where
  "cfgDup = mkConfig ''acme'' [mkOrg ''acme'', mkOrg ''acme''] ''tok''"

definition cfgOne :: GitHubConfig where
  "cfgOne = mkConfig ''acme'' [mkOrg ''acme''] ''tok''"

definition cfgLegacy :: GitHubConfig where
  "cfgLegacy = mkConfig ''acme'' [mkOrg ''other''] ''tok''"

definition entryEx :: GitHubCache where
  "entryEx = \<lparr>Repos = [mkRepo ''widgets'' False False], CachedAt = 0, ExpiresAt = 500\<rparr>"

definition worldStale :: "GitHubCache World" where
  "worldStale = worldEx\<lparr>files := [getCacheFilePath sysEx ''acme'' \<mapsto> Content entryEx]\<rparr>"

definition worldUnreadable :: "GitHubCache World" where
  "worldUnreadable = worldEx\<lparr>files := [getCacheFilePath sysEx ''acme'' \<mapsto> Unreadable]\<rparr>"

definition sysCorrupt :: "GitHubCache Sys" where
  "sysCorrupt = sysEx\<lparr>unmarshal := (\<lambda>data. None)\<rparr>"

definition err500 :: ProviderError where
  "err500 = \<lparr>StatusCode = 500, ErrorText = ''500 Internal Server Error''\<rparr>"

definition err404 :: ProviderError where
  "err404 = \<lparr>StatusCode = 404, ErrorText = ''404 Not Found''\<rparr>"

text \<open>Two scopes, the second of which the provider cannot serve.\<close>

definition cfgTwo :: GitHubConfig where
  "cfgTwo = mkConfig [] [mkOrg ''alpha'', mkOrg ''beta''] []"

definition clBetaDown :: Client where
  "clBetaDown =
     \<lparr>ListOrgReposWithToken =
        (\<lambda>org token. if org = ''alpha'' then Inr [mkRepo ''widgets'' False False]
                      else Inl (orgListError org err500)),
      ListUserReposWithToken = (\<lambda>user token. Inl ''failed to list repositories for user''),
      ListAuthenticatedUserReposWithToken = (\<lambda>token. Inl ''failed to list repositories''),
      GetAuthenticatedUsername = (\<lambda>token. Inl ''failed to get authenticated user'')\<rparr>"

text \<open>
  The same two scopes, where \<open>beta\<close> is a user, not an organization, and has a token of
  its own that the provider rejects; the global token belongs to the user \<open>beta\<close>, and
  personal repositories are included.
\<close>

definition cfgPersonal :: GitHubConfig where
  "cfgPersonal =
     (mkConfig [] [mkOrg ''alpha'', \<lparr>OrgName = ''beta'', DisplayName = [], OrgToken = ''stale''\<rparr>]
        ''good'')\<lparr>IncludePersonal := True\<rparr>"

definition clPersonal :: Client where
  "clPersonal =
     \<lparr>ListOrgReposWithToken =
        (\<lambda>org token. if org = ''alpha'' then Inr [mkRepo ''widgets'' False False]
                      else Inl (orgListError org err404)),
      ListUserReposWithToken =
        (\<lambda>user token. if user = ''beta'' \<and> token = ''good''
                       then Inr [mkRepo ''dotfiles'' False False]
                       else Inl (''failed to list repositories for user '' @ user @
                                 '': 401 Bad credentials'')),
      ListAuthenticatedUserReposWithToken =
        (\<lambda>token. if token = ''good'' then Inr [mkRepo ''dotfiles'' False False]
                  else Inl ''failed to list repositories for authenticated user: 401 Bad credentials''),
      GetAuthenticatedUsername =
        (\<lambda>token. if token = ''good'' then Inr ''beta''
                  else Inl ''failed to get authenticated user: 401 Bad credentials'')\<rparr>"

text \<open>
  One scope whose name contains the digits 404; the organization endpoint answers with
  status 500, the user endpoint has repositories.
\<close>

definition cfg404 :: GitHubConfig where
  "cfg404 = mkConfig [] [mkOrg ''area404''] []"

definition clRetry :: Client where
  "clRetry =
     \<lparr>ListOrgReposWithToken = (\<lambda>org token. Inl (orgListError org err500)),
      ListUserReposWithToken = (\<lambda>user token. Inr [mkRepo ''widgets'' False False]),
      ListAuthenticatedUserReposWithToken = (\<lambda>token. Inl ''failed to list repositories''),
      GetAuthenticatedUsername = (\<lambda>token. Inl ''failed to get authenticated user'')\<rparr>"

text \<open>
  The repositories of a scope that get an entry: neither archived nor disabled, and
  cloned already or uncloned ones are shown. \<open>scopeKeys\<close> are their keys, in order.
\<close>

definition shown :: "'b Sys \<Rightarrow> 'b World \<Rightarrow> GitHubConfig \<Rightarrow> string \<Rightarrow> GitHubRepo \<Rightarrow> bool" where
  "shown sys w config scope repo =
     (if Archived repo \<or> Disabled repo then False
      else if files w (clonePathOf sys config scope repo) = None then ShouldShowUncloned config
      else True)"

definition scopeKeys :: "'b Sys \<Rightarrow> 'b World \<Rightarrow> GitHubConfig \<Rightarrow> RepoMap \<Rightarrow> string \<Rightarrow> string list" where
  "scopeKeys sys w config allRepos scope =
     (case allRepos scope of
        None \<Rightarrow> []
      | Some repos \<Rightarrow> map (githubKey scope) (filter (shown sys w config scope) repos))"

definition personalKeys :: "'b Sys \<Rightarrow> Client \<Rightarrow> 'b World \<Rightarrow> GitHubConfig \<Rightarrow> RepoMap \<Rightarrow> string list" where
  "personalKeys sys cl w config allRepos =
     (case personalName sys cl config of
        None \<Rightarrow> []
      | Some u \<Rightarrow> scopeKeys sys w config allRepos u)"

text \<open>
  One scope \<open>acme\<close> with four repositories, one archived and one disabled; a world in
  which the archived one and \<open>gadgets\<close> are cloned; a configuration that hides uncloned
  repositories; and a configuration whose only scope is the authenticated user.
\<close>

definition cfgAcme :: GitHubConfig where
  "cfgAcme = mkConfig [] [mkOrg ''acme''] []"

definition cfgHide :: GitHubConfig where
  "cfgHide = cfgAcme\<lparr>ShowUncloned := Some False\<rparr>"

definition reposAcme :: "GitHubRepo list" where
  "reposAcme = [mkRepo ''widgets'' True False, mkRepo ''gadgets'' False False,
                mkRepo ''sprockets'' False True, mkRepo ''tools'' False False]"

definition worldCloned :: "GitHubCache World" where
  "worldCloned =
     worldEx\<lparr>files := [''/home/u/git/github.com/acme/widgets'' \<mapsto> Unreadable,
                        ''/home/u/git/github.com/acme/gadgets'' \<mapsto> Unreadable]\<rparr>"

definition clNone :: Client where
  "clNone =
     \<lparr>ListOrgReposWithToken = (\<lambda>org token. Inl ''failed to list repositories for org''),
      ListUserReposWithToken = (\<lambda>user token. Inl ''failed to list repositories for user''),
      ListAuthenticatedUserReposWithToken = (\<lambda>token. Inl ''failed to list repositories''),
      GetAuthenticatedUsername = (\<lambda>token. Inl ''failed to get authenticated user'')\<rparr>"

definition cfgSelf :: GitHubConfig where
  "cfgSelf = (mkConfig [] [mkOrg ''beta''] ''good'')\<lparr>IncludePersonal := True\<rparr>"

text \<open>
  A clone directory with a space in its name, and the session that \<open>listGitHub\<close> builds
  under it for the uncloned repository \<open>widgets\<close> of the scope \<open>acme\<close>.
\<close>

definition cfgSpace :: GitHubConfig where
  "cfgSpace = cfgAcme\<lparr>CloneDir := ''/home/u/my repos''\<rparr>"

definition sessionSpace :: SeshSession where
  "sessionSpace =
     \<lparr>Src = ''github'', SessionName = ''acme/widgets'',
      Path = ''/home/u/my repos/github.com/acme/widgets'',
      StartupCommand =
        cloneCommand ''https://github.com/acme/widgets.git''
          ''/home/u/my repos/github.com/acme/widgets''\<rparr>"

definition sessionPlain :: SeshSession where
  "sessionPlain =
     \<lparr>Src = ''github'', SessionName = ''acme/widgets'',
      Path = ''/home/u/git/github.com/acme/widgets'',
      StartupCommand =
        cloneCommand ''https://github.com/acme/widgets.git''
          ''/home/u/git/github.com/acme/widgets''\<rparr>"

text \<open>
  The example system with a codec that obeys the law, and a repository whose name has a
  byte (FF) that is not valid UTF-8.
\<close>

definition sysJSON :: "GitHubCache Sys" where
  "sysJSON = sysEx\<lparr>marshal := (\<lambda>c. Some (coerceCache c))\<rparr>"

definition repoBadName :: GitHubRepo where
  "repoBadName = (mkRepo ''widgets'' False False)\<lparr>Name := [CHR ''w'', CHR 0xFF]\<rparr>"

section \<open>Legacy scope folding\<close>

lemma countNamed_append: "countNamed n (xs @ ys) = countNamed n xs + countNamed n ys"
  by (induction xs) auto

lemma countNamed_zero_iff: "countNamed n orgs = 0 \<longleftrightarrow> \<not> orgNamed n orgs"
  by (induction orgs) auto

text \<open>
  C6, as amended. When the legacy name is already in the new scope list,
  \<open>GetOrganizations\<close> returns that list unchanged: it adds no entry, so the name occurs as
  often as it did in the list (once when the list names it once). When a non-empty legacy
  name is not in the list, one entry with that name, display name and the global token is
  appended, and it is the only entry with that name.
\<close>

theorem GetOrganizations_legacy:
  "(orgNamed (Organization c) (Organizations c) \<longrightarrow>
      GetOrganizations c = Organizations c \<and>
      countNamed (Organization c) (GetOrganizations c) =
        countNamed (Organization c) (Organizations c)) \<and>
   (Organization c \<noteq> [] \<and> \<not> orgNamed (Organization c) (Organizations c) \<longrightarrow>
      GetOrganizations c =
        Organizations c @ [\<lparr>OrgName = Organization c, DisplayName = Organization c,
                             OrgToken = Token c\<rparr>] \<and>
      countNamed (Organization c) (GetOrganizations c) = 1)"
  by (auto simp: GetOrganizations_def Let_def countNamed_append countNamed_zero_iff)

theorem GetOrganizations_legacy_witness:
  "orgNamed (Organization cfgOne) (Organizations cfgOne) \<and>
   GetOrganizations cfgOne = [mkOrg ''acme''] \<and>
   countNamed ''acme'' (GetOrganizations cfgOne) = 1 \<and>
   Organization cfgLegacy \<noteq> [] \<and>
   \<not> orgNamed (Organization cfgLegacy) (Organizations cfgLegacy) \<and>
   GetOrganizations cfgLegacy =
     [mkOrg ''other'', \<lparr>OrgName = ''acme'', DisplayName = ''acme'', OrgToken = ''tok''\<rparr>] \<and>
   countNamed ''acme'' (GetOrganizations cfgLegacy) = 1"
  using GetOrganizations_legacy [of cfgOne] GetOrganizations_legacy [of cfgLegacy]
  by (simp add: cfgOne_def cfgLegacy_def mkConfig_def mkOrg_def)

text \<open>
  C6 as stated fails when the new scope list itself names the scope twice: the legacy
  name is present, and the result has two entries with it.
\<close>

theorem GetOrganizations_dup_counterexample:
  "orgNamed (Organization cfgDup) (Organizations cfgDup) \<and>
   countNamed (Organization cfgDup) (GetOrganizations cfgDup) = 2"
  by (simp add: cfgDup_def mkConfig_def mkOrg_def GetOrganizations_def)

section \<open>TTL cache: expiry and round trip\<close>

text \<open>
  C2. \<open>Get\<close> answers not-found, with a nil slice, when the scope's cache file does not
  exist, when it cannot be read, when its contents do not deserialize, and when they do
  deserialize but the time read by \<open>Get\<close> is strictly after the stored \<open>expires_at\<close>; in
  this last case the file is still there afterwards. \<open>Get\<close> has no error result: each case
  is the ordinary pair \<open>(nil, false)\<close>.
\<close>

theorem cache_Get_not_found:
  "(files w (getCacheFilePath sys org) = None \<longrightarrow>
      cache_Get sys org w = (([], False), w)) \<and>
   (files w (getCacheFilePath sys org) = Some Unreadable \<longrightarrow>
      cache_Get sys org w = (([], False), w)) \<and>
   (files w (getCacheFilePath sys org) = Some (Content data) \<and> unmarshal sys data = None \<longrightarrow>
      cache_Get sys org w = (([], False), w)) \<and>
   (files w (getCacheFilePath sys org) = Some (Content data) \<and>
    unmarshal sys data = Some cache \<and> clock w (ticks w) > ExpiresAt cache \<longrightarrow>
      fst (cache_Get sys org w) = ([], False) \<and>
      files (snd (cache_Get sys org w)) = files w)"
  by (simp add: cache_Get_def Let_def timeNow_def)

theorem cache_Get_not_found_witness:
  "files worldEx (getCacheFilePath sysEx ''acme'') = None \<and>
   cache_Get sysEx ''acme'' worldEx = (([], False), worldEx) \<and>
   files worldUnreadable (getCacheFilePath sysEx ''acme'') = Some Unreadable \<and>
   cache_Get sysEx ''acme'' worldUnreadable = (([], False), worldUnreadable) \<and>
   files worldStale (getCacheFilePath sysCorrupt ''acme'') = Some (Content entryEx) \<and>
   unmarshal sysCorrupt entryEx = None \<and>
   cache_Get sysCorrupt ''acme'' worldStale = (([], False), worldStale) \<and>
   files worldStale (getCacheFilePath sysEx ''acme'') = Some (Content entryEx) \<and>
   unmarshal sysEx entryEx = Some entryEx \<and>
   clock worldStale (ticks worldStale) > ExpiresAt entryEx \<and>
   fst (cache_Get sysEx ''acme'' worldStale) = ([], False) \<and>
   files (snd (cache_Get sysEx ''acme'' worldStale)) = files worldStale"
  using cache_Get_not_found [of worldEx sysEx "''acme''" entryEx entryEx]
        cache_Get_not_found [of worldUnreadable sysEx "''acme''" entryEx entryEx]
        cache_Get_not_found [of worldStale sysCorrupt "''acme''" entryEx entryEx]
        cache_Get_not_found [of worldStale sysEx "''acme''" entryEx entryEx]
  by (simp add: getCacheFilePath_def sysEx_def sysCorrupt_def worldEx_def worldStale_def
        worldUnreadable_def entryEx_def)

text \<open>
  A timeout of up to 153722867 minutes fits a 64-bit count of nanoseconds; the product in
  \<open>Set\<close> is then the exact one.
\<close>

lemma minutesDuration_exact:
  assumes "0 < sint timeout" and "sint timeout \<le> 153722867"
  shows "minutesDuration timeout = 60000000000 * sint timeout"
proof -
  have s: "sint (60000000000 :: 64 word) = 60000000000" by simp
  have lo: "- (2 ^ 63) \<le> sint timeout * 60000000000" using assms by simp
  have "sint timeout * 60000000000 \<le> 153722867 * 60000000000" using assms by simp
  then have hi: "sint timeout * 60000000000 < 2 ^ 63" by simp
  have "sint (timeout * 60000000000) = signed_take_bit 63 (sint timeout * 60000000000)"
    by (simp add: sint_word_ariths s)
  also have "\<dots> = sint timeout * 60000000000"
    using lo hi by (simp add: signed_take_bit_int_eq_self)
  finally show ?thesis by (simp add: minutesDuration_def mult.commute)
qed

text \<open>
  \<open>Set\<close> followed by \<open>Get\<close>, for any encoder and decoder: when the write goes through and
  the decoder reads the entry back from what the encoder wrote, \<open>Get\<close> before the expiry
  returns the stored repositories.
\<close>

lemma cache_Set_then_Get:
  assumes "0 < sint timeout" and "sint timeout \<le> 153722867"
    and "\<not> mkdirFails w (dirName sys (getCacheFilePath sys org))"
    and "\<not> writeFails w (getCacheFilePath sys org)"
    and "marshal sys \<lparr>Repos = repos, CachedAt = clock w (ticks w),
                       ExpiresAt = clock w (ticks w) + minutesDuration timeout\<rparr> = Some data"
    and "unmarshal sys data =
           Some \<lparr>Repos = repos, CachedAt = clock w (ticks w),
                  ExpiresAt = clock w (ticks w) + minutesDuration timeout\<rparr>"
    and "clock w (Suc (ticks w)) \<le> clock w (ticks w) + 60000000000 * sint timeout"
  shows "fst (cache_Get sys org (cache_Set sys org repos timeout w)) = (repos, True)"
proof -
  let ?p = "getCacheFilePath sys org"
  let ?w1 = "w\<lparr>ticks := Suc (ticks w)\<rparr>"
  have set_eq:
    "cache_Set sys org repos timeout w = ?w1\<lparr>files := (files ?w1)(?p \<mapsto> Content data)\<rparr>"
    using assms(3,4,5) by (simp add: cache_Set_def Let_def timeNow_def)
  have d: "minutesDuration timeout = 60000000000 * sint timeout"
    using assms(1,2) by (rule minutesDuration_exact)
  show ?thesis
    using assms(6,7) by (simp add: set_eq cache_Get_def Let_def timeNow_def d)
qed

text \<open>Strings that are valid UTF-8 come back from the JSON encoding as they went in.\<close>

lemma toValidUTF8_valid: "utf8Valid s \<Longrightarrow> toValidUTF8 s = s"
  by (induction s rule: toValidUTF8.induct) (auto split: option.splits)

lemma coerceRepo_valid:
  assumes "validRepo r"
  shows "coerceRepo r = r"
proof -
  have "map toValidUTF8 (Topics r) = Topics r"
    using assms by (simp add: validRepo_def list_all_iff toValidUTF8_valid map_idI)
  then show ?thesis
    using assms by (simp add: coerceRepo_def validRepo_def toValidUTF8_valid)
qed

lemma coerceRepos_valid: "list_all validRepo repos \<Longrightarrow> map coerceRepo repos = repos"
  by (simp add: list_all_iff coerceRepo_valid map_idI)

text \<open>
  C3, as amended. For every scope and every sequence of repositories whose strings are
  valid UTF-8, \<open>Set\<close> with a positive timeout of at most 153722867 minutes, whose directory
  creation, encoding and file write succeed, followed by \<open>Get\<close> for the same scope at a
  time not after the time of \<open>Set\<close> plus the timeout, returns found and exactly the stored
  repositories. The encoder and decoder are any pair that behaves as \<open>encoding/json\<close>
  does on strings (\<open>jsonCodec\<close>).
\<close>

theorem cache_Set_Get_roundtrip:
  assumes "0 < sint timeout" and "sint timeout \<le> 153722867"
    and "\<not> mkdirFails w (dirName sys (getCacheFilePath sys org))"
    and "\<not> writeFails w (getCacheFilePath sys org)"
    and "marshal sys \<lparr>Repos = repos, CachedAt = clock w (ticks w),
                       ExpiresAt = clock w (ticks w) + minutesDuration timeout\<rparr> \<noteq> None"
    and "jsonCodec sys"
    and "list_all validRepo repos"
    and "clock w (Suc (ticks w)) \<le> clock w (ticks w) + 60000000000 * sint timeout"
  shows "fst (cache_Get sys org (cache_Set sys org repos timeout w)) = (repos, True)"
proof -
  let ?e = "\<lparr>Repos = repos, CachedAt = clock w (ticks w),
             ExpiresAt = clock w (ticks w) + minutesDuration timeout\<rparr>"
  obtain data where enc: "marshal sys ?e = Some data" using assms(5) by auto
  have "unmarshal sys data = Some (coerceCache ?e)"
    using assms(6) enc by (simp add: jsonCodec_def)
  moreover have "coerceCache ?e = ?e"
    using assms(7) by (simp add: coerceCache_def coerceRepos_valid)
  ultimately have dec: "unmarshal sys data = Some ?e" by simp
  show ?thesis
    by (rule cache_Set_then_Get [OF assms(1-4) enc dec assms(8)])
qed

lemma sysJSON_codec: "jsonCodec sysJSON"
  by (auto simp: jsonCodec_def sysJSON_def sysEx_def)

lemma widgets_valid: "validRepo (mkRepo ''widgets'' False False)"
  by (simp add: validRepo_def mkRepo_def runeLen_def lead_def)

theorem cache_Set_Get_roundtrip_witness:
  "0 < sint (30 :: 64 word) \<and> sint (30 :: 64 word) \<le> 153722867 \<and>
   \<not> mkdirFails worldEx (dirName sysJSON (getCacheFilePath sysJSON ''acme'')) \<and>
   \<not> writeFails worldEx (getCacheFilePath sysJSON ''acme'') \<and>
   jsonCodec sysJSON \<and>
   list_all validRepo [mkRepo ''widgets'' False False] \<and>
   clock worldEx (Suc (ticks worldEx)) \<le>
     clock worldEx (ticks worldEx) + 60000000000 * sint (30 :: 64 word) \<and>
   fst (cache_Get sysJSON ''acme''
          (cache_Set sysJSON ''acme'' [mkRepo ''widgets'' False False] 30 worldEx)) =
     ([mkRepo ''widgets'' False False], True)"
  using cache_Set_Get_roundtrip [of 30 worldEx sysJSON "''acme''" "[mkRepo ''widgets'' False False]"]
        sysJSON_codec widgets_valid
  by (simp add: sysJSON_def sysEx_def worldEx_def)

text \<open>
  The first way in which C3 as stated fails: a large positive timeout. 153722868 minutes
  overflow the 64-bit duration, \<open>expires_at\<close> lands in the past, and \<open>Get\<close> straight after
  a successful \<open>Set\<close>, with the clock standing still, answers not-found.
\<close>

lemma overflow_example:
  "0 < sint (153722868 :: 64 word) \<and>
   files (cache_Set sysJSON ''acme'' [mkRepo ''widgets'' False False] 153722868 worldEx)
     (getCacheFilePath sysJSON ''acme'') \<noteq> None \<and>
   clock worldEx (Suc (ticks worldEx)) = clock worldEx (ticks worldEx) \<and>
   fst (cache_Get sysJSON ''acme''
          (cache_Set sysJSON ''acme'' [mkRepo ''widgets'' False False] 153722868 worldEx)) =
     ([], False)"
  by (simp add: cache_Set_def cache_Get_def Let_def timeNow_def minutesDuration_def
        getCacheFilePath_def sysJSON_def sysEx_def worldEx_def coerceCache_def)

text \<open>
  The second way: a repository whose name is not valid UTF-8. The write succeeds, \<open>Get\<close>
  finds the entry, but the name comes back with the replacement rune in place of the
  byte FF: not the sequence that was stored.
\<close>

lemma invalid_utf8_example:
  "0 < sint (30 :: 64 word) \<and> sint (30 :: 64 word) \<le> 153722867 \<and>
   files (cache_Set sysJSON ''acme'' [repoBadName] 30 worldEx)
     (getCacheFilePath sysJSON ''acme'') \<noteq> None \<and>
   fst (cache_Get sysJSON ''acme'' (cache_Set sysJSON ''acme'' [repoBadName] 30 worldEx)) =
     ([repoBadName\<lparr>Name := [CHR ''w'', CHR 0xEF, CHR 0xBF, CHR 0xBD]\<rparr>], True) \<and>
   repoBadName\<lparr>Name := [CHR ''w'', CHR 0xEF, CHR 0xBF, CHR 0xBD]\<rparr> \<noteq> repoBadName"
  by (simp add: cache_Set_def cache_Get_def Let_def timeNow_def minutesDuration_def
        getCacheFilePath_def sysJSON_def sysEx_def worldEx_def coerceCache_def coerceRepo_def
        repoBadName_def mkRepo_def runeLen_def lead_def)

text \<open>
  C3 as stated fails at both inputs, under an encoder and decoder that obey the law of
  \<open>encoding/json\<close>: the timeout 153722868 with a repository list of valid strings gives
  not-found; the timeout 30 with the name \<open>w\<close> followed by the byte FF gives a list that
  differs from the stored one.
\<close>

theorem cache_Set_Get_counterexample:
  "jsonCodec sysJSON \<and>
   0 < sint (153722868 :: 64 word) \<and>
   list_all validRepo [mkRepo ''widgets'' False False] \<and>
   files (cache_Set sysJSON ''acme'' [mkRepo ''widgets'' False False] 153722868 worldEx)
     (getCacheFilePath sysJSON ''acme'') \<noteq> None \<and>
   clock worldEx (Suc (ticks worldEx)) = clock worldEx (ticks worldEx) \<and>
   fst (cache_Get sysJSON ''acme''
          (cache_Set sysJSON ''acme'' [mkRepo ''widgets'' False False] 153722868 worldEx)) =
     ([], False) \<and>
   0 < sint (30 :: 64 word) \<and> sint (30 :: 64 word) \<le> 153722867 \<and>
   files (cache_Set sysJSON ''acme'' [repoBadName] 30 worldEx)
     (getCacheFilePath sysJSON ''acme'') \<noteq> None \<and>
   fst (cache_Get sysJSON ''acme'' (cache_Set sysJSON ''acme'' [repoBadName] 30 worldEx)) =
     ([repoBadName\<lparr>Name := [CHR ''w'', CHR 0xEF, CHR 0xBF, CHR 0xBD]\<rparr>], True) \<and>
   repoBadName\<lparr>Name := [CHR ''w'', CHR 0xEF, CHR 0xBF, CHR 0xBD]\<rparr> \<noteq> repoBadName"
  using sysJSON_codec widgets_valid overflow_example invalid_utf8_example by simp

section \<open>Shorthand resolver: what the two patterns extract\<close>

text \<open>
  The matcher's equations are applied by hand below, one pattern part at a time.
\<close>

declare rmatch.simps [simp del]

lemma HasPrefix_append [simp]: "HasPrefix (p @ s) p"
  by (induction p) auto

lemma rmatch_Lit_append: "rmatch (Lit l) (l @ s) caps k = k s caps"
  by (simp add: rmatch.simps)

lemma rmatch_Lit_fail: "\<not> HasPrefix s l \<Longrightarrow> rmatch (Lit l) s caps k = None"
  by (simp add: rmatch.simps)

lemma rmatch_Opt_taken: "rmatch r s caps k = Some x \<Longrightarrow> rmatch (Opt r) s caps k = Some x"
  by (simp add: rmatch.simps)

lemma rmatch_Opt_skipped: "rmatch r s caps k = None \<Longrightarrow> rmatch (Opt r) s caps k = k s caps"
  by (simp add: rmatch.simps)

lemma tryLens_first:
  "0 < n \<Longrightarrow> k (drop n s) = Some r \<Longrightarrow> tryLens n s k = Some r"
  by (cases n) auto

lemma takeWhile_name_run:
  assumes "\<forall>c \<in> set xs. nameChar c" and "rest = [] \<or> \<not> nameChar (hd rest)"
  shows "takeWhile nameChar (xs @ rest) = xs"
proof -
  have "takeWhile nameChar rest = []"
    using assms(2) by (cases rest) auto
  then show ?thesis using assms(1) by (simp add: takeWhile_append2)
qed

lemma rmatch_name_group:
  assumes "xs \<noteq> []" and "\<forall>c \<in> set xs. nameChar c"
    and "rest = [] \<or> \<not> nameChar (hd rest)"
    and "k rest (caps(i \<mapsto> xs)) = Some r"
  shows "rmatch (Group i (Plus1 nameChar)) (xs @ rest) caps k = Some r"
proof -
  have run: "takeWhile nameChar (xs @ rest) = xs"
    using assms(2,3) by (rule takeWhile_name_run)
  have "tryLens (length xs) (xs @ rest)
          (\<lambda>s'. k s' (caps(i \<mapsto> take (length (xs @ rest) - length s') (xs @ rest)))) = Some r"
    using assms(1,4) by (intro tryLens_first) auto
  then show ?thesis by (simp add: run rmatch.simps)
qed

lemma slash_not_name [simp]: "\<not> nameChar CHR ''/''"
  by (simp add: nameChar_def)

lemma shorthand_match:
  assumes "owner \<noteq> []" "repo \<noteq> []" "\<forall>c \<in> set owner. nameChar c" "\<forall>c \<in> set repo. nameChar c"
  shows "FindStringSubmatch githubShorthandRegex (owner @ ''/'' @ repo) = Some (owner, repo)"
proof -
  have g2: "rmatch (Group 2 (Plus1 nameChar)) (repo @ []) [1 \<mapsto> owner] finish = Some (owner, repo)"
    using assms(2,4) by (intro rmatch_name_group) (auto simp: finish_def)
  have tail: "rmatch (Seq (Lit ''/'') (Group 2 (Plus1 nameChar))) (''/'' @ repo) [1 \<mapsto> owner] finish
                = Some (owner, repo)"
    using g2 by (simp only: rmatch.simps(4) rmatch_Lit_append append_Nil2)
  have "rmatch (Group 1 (Plus1 nameChar)) (owner @ (''/'' @ repo)) Map.empty
          (\<lambda>s' caps'. rmatch (Seq (Lit ''/'') (Group 2 (Plus1 nameChar))) s' caps' finish)
        = Some (owner, repo)"
    using assms(1,3) tail by (intro rmatch_name_group) auto
  then show ?thesis
    by (simp only: FindStringSubmatch_def githubShorthandRegex_def rmatch.simps(4))
qed

lemma url_tail:
  assumes "owner \<noteq> []" and "repo \<noteq> []"
    and "\<forall>c \<in> set owner. nameChar c" and "\<forall>c \<in> set repo. nameChar c"
  shows "rmatch (Seq (Lit ''github.com/'')
          (Seq (Group 1 (Plus1 nameChar))
          (Seq (Lit ''/'')
          (Seq (Group 2 (Plus1 nameChar))
          (Seq (Opt (Lit ''.git'')) (Opt (Lit ''/''))))))) (''github.com/'' @ owner @ ''/'' @ repo) Map.empty finish
         = Some (owner, repo)"
proof -
  let ?c = "[1 \<mapsto> owner, 2 \<mapsto> repo]"
  have e2: "rmatch (Opt (Lit ''/'')) [] ?c finish = Some (owner, repo)"
    by (simp add: rmatch_Opt_skipped rmatch_Lit_fail finish_def)
  have e1: "rmatch (Seq (Opt (Lit ''.git'')) (Opt (Lit ''/''))) [] ?c finish = Some (owner, repo)"
    by (simp add: rmatch.simps(4) rmatch_Opt_skipped rmatch_Lit_fail finish_def)
  have g2: "rmatch (Group 2 (Plus1 nameChar)) (repo @ []) [1 \<mapsto> owner]
              (\<lambda>s' caps'. rmatch (Seq (Opt (Lit ''.git'')) (Opt (Lit ''/''))) s' caps' finish)
            = Some (owner, repo)"
    using assms(2,4) e1 by (intro rmatch_name_group) auto
  have t2: "rmatch (Seq (Lit ''/'') (Seq (Group 2 (Plus1 nameChar))
              (Seq (Opt (Lit ''.git'')) (Opt (Lit ''/''))))) (''/'' @ repo) [1 \<mapsto> owner] finish
            = Some (owner, repo)"
    using g2 by (simp only: rmatch.simps(4) rmatch_Lit_append append_Nil2)
  have g1: "rmatch (Group 1 (Plus1 nameChar)) (owner @ (''/'' @ repo)) Map.empty
          (\<lambda>s' caps'. rmatch (Seq (Lit ''/'') (Seq (Group 2 (Plus1 nameChar))
              (Seq (Opt (Lit ''.git'')) (Opt (Lit ''/''))))) s' caps' finish)
        = Some (owner, repo)"
    using assms(1,3) t2 by (intro rmatch_name_group) auto
  show ?thesis
    using g1 by (simp only: rmatch.simps(4) rmatch_Lit_append)
qed

lemma url_prefix_https:
  assumes "rmatch re (''github.com/'' @ s) caps k = Some x"
  shows "rmatch (Seq (Opt (Seq (Lit ''http'') (Seq (Opt (Lit ''s'')) (Lit ''://''))))
                (Seq (Opt (Lit ''www.'')) re)) (''https://github.com/'' @ s) caps k = Some x"
  using assms by (simp add: rmatch.simps(1,3,4))

lemma url_match:
  assumes "owner \<noteq> []" and "repo \<noteq> []"
    and "\<forall>c \<in> set owner. nameChar c" and "\<forall>c \<in> set repo. nameChar c"
  shows "FindStringSubmatch githubURLRegex (''https://github.com/'' @ owner @ ''/'' @ repo)
           = Some (owner, repo)"
  unfolding FindStringSubmatch_def githubURLRegex_def
  by (rule url_prefix_https) (rule url_tail [OF assms])

lemma name_chars_https: "takeWhile nameChar (''https://'' @ s) = ''https''"
  by (simp add: nameChar_def)

lemma shorthand_rejects_url:
  "FindStringSubmatch githubShorthandRegex (''https://github.com/'' @ s) = None"
proof -
  have "takeWhile nameChar (''https://github.com/'' @ s) = ''https''"
    using name_chars_https [of "''github.com/'' @ s"] by simp
  then show ?thesis
    by (simp add: FindStringSubmatch_def githubShorthandRegex_def rmatch.simps finish_def)
qed

lemma git_suffix_name: "\<forall>c \<in> set ''.git''. nameChar c"
  by (simp add: nameChar_def)

text \<open>
  C5. For every non-empty owner and repo over the class \<open>[a-zA-Z0-9._-]\<close>, the shorthand
  \<open>owner/repo\<close> and the URL \<open>https://github.com/owner/repo\<close> both extract to the pair
  \<open>(owner, repo)\<close>; an input that matches neither pattern gives the invalid-format error.
  The witness is the pair \<open>acme\<close>, \<open>widgets\<close> of the specification.
\<close>

theorem ExtractOrgAndRepo_equivalence:
  assumes "owner \<noteq> []" and "repo \<noteq> []"
    and "\<forall>c \<in> set owner. nameChar c" and "\<forall>c \<in> set repo. nameChar c"
  shows "ExtractOrgAndRepo (owner @ ''/'' @ repo) = Inr (owner, repo) \<and>
         ExtractOrgAndRepo (''https://github.com/'' @ owner @ ''/'' @ repo) = Inr (owner, repo) \<and>
         (\<not> MatchString githubShorthandRegex input \<and> \<not> MatchString githubURLRegex input \<longrightarrow>
            ExtractOrgAndRepo input = Inl (''invalid GitHub shorthand format: '' @ input))"
proof (intro conjI)
  show "ExtractOrgAndRepo (owner @ ''/'' @ repo) = Inr (owner, repo)"
    using shorthand_match [OF assms] by (simp add: ExtractOrgAndRepo_def)
  show "ExtractOrgAndRepo (''https://github.com/'' @ owner @ ''/'' @ repo) = Inr (owner, repo)"
    using shorthand_rejects_url [of "owner @ ''/'' @ repo"] url_match [OF assms]
    by (simp add: ExtractOrgAndRepo_def)
  show "\<not> MatchString githubShorthandRegex input \<and> \<not> MatchString githubURLRegex input \<longrightarrow>
           ExtractOrgAndRepo input = Inl (''invalid GitHub shorthand format: '' @ input)"
    by (auto simp: ExtractOrgAndRepo_def MatchString_def split: option.splits)
qed

lemma no_match_example:
  "\<not> MatchString githubShorthandRegex ''not a repo'' \<and>
   \<not> MatchString githubURLRegex ''not a repo''"
  by (simp add: MatchString_def FindStringSubmatch_def githubShorthandRegex_def
        githubURLRegex_def rmatch.simps nameChar_def finish_def)

theorem ExtractOrgAndRepo_equivalence_witness:
  "list_all nameChar ''acme'' \<and> list_all nameChar ''widgets'' \<and>
   ExtractOrgAndRepo ''acme/widgets'' = Inr (''acme'', ''widgets'') \<and>
   ExtractOrgAndRepo ''https://github.com/acme/widgets'' = Inr (''acme'', ''widgets'') \<and>
   \<not> MatchString githubShorthandRegex ''not a repo'' \<and>
   \<not> MatchString githubURLRegex ''not a repo'' \<and>
   ExtractOrgAndRepo ''not a repo'' = Inl ''invalid GitHub shorthand format: not a repo''"
  using ExtractOrgAndRepo_equivalence [of "''acme''" "''widgets''" "''not a repo''"]
        no_match_example
  by (simp add: nameChar_def)

text \<open>
  C10. For every non-empty owner and every repo over the class, the URL
  \<open>https://github.com/owner/repo.git\<close> is recognised by \<open>IsGitHubShorthand\<close>, but
  \<open>ExtractOrgAndRepo\<close> returns the repo with its \<open>.git\<close> still on (the greedy second
  group takes it before the optional \<open>.git\<close> of the pattern is tried), so \<open>ConvertToURL\<close>
  builds a clone URL that ends in \<open>.git.git\<close>, over SSH and over HTTPS.
\<close>

theorem git_suffix_kept:
  assumes "owner \<noteq> []"
    and "\<forall>c \<in> set owner. nameChar c" and "\<forall>c \<in> set repo. nameChar c"
  shows "IsGitHubShorthand (''https://github.com/'' @ owner @ ''/'' @ repo @ ''.git'') \<and>
         ExtractOrgAndRepo (''https://github.com/'' @ owner @ ''/'' @ repo @ ''.git'') =
           Inr (owner, repo @ ''.git'') \<and>
         ConvertToURL (''https://github.com/'' @ owner @ ''/'' @ repo @ ''.git'') config =
           Inr ((if UseSSH config then ''git@github.com:'' else ''https://github.com/'') @
                owner @ ''/'' @ repo @ ''.git.git'')"
proof -
  let ?url = "''https://github.com/'' @ owner @ ''/'' @ repo @ ''.git''"
  have cls: "\<forall>c \<in> set (repo @ ''.git''). nameChar c"
    using assms(3) git_suffix_name by auto
  have u: "FindStringSubmatch githubURLRegex ?url = Some (owner, repo @ ''.git'')"
    using url_match [OF assms(1) _ assms(2) cls] by simp
  have sh: "FindStringSubmatch githubShorthandRegex ?url = None"
    using shorthand_rejects_url [of "owner @ ''/'' @ repo @ ''.git''"] by simp
  have ex: "ExtractOrgAndRepo ?url = Inr (owner, repo @ ''.git'')"
    by (simp only: ExtractOrgAndRepo_def u sh option.case)
  have "IsGitHubShorthand ?url"
    by (simp only: IsGitHubShorthand_def MatchString_def u sh) simp
  moreover have "ConvertToURL ?url config =
           Inr ((if UseSSH config then ''git@github.com:'' else ''https://github.com/'') @
                owner @ ''/'' @ repo @ ''.git.git'')"
    by (simp only: ConvertToURL_def ex) simp
  ultimately show ?thesis using ex by blast
qed

theorem git_suffix_kept_witness:
  "list_all nameChar ''acme'' \<and> list_all nameChar ''widgets'' \<and>
   IsGitHubShorthand ''https://github.com/acme/widgets.git'' \<and>
   ExtractOrgAndRepo ''https://github.com/acme/widgets.git'' = Inr (''acme'', ''widgets.git'') \<and>
   ConvertToURL ''https://github.com/acme/widgets.git'' (mkConfig [] [] []) =
     Inr ''https://github.com/acme/widgets.git.git'' \<and>
   ConvertToURL ''https://github.com/acme/widgets.git'' ((mkConfig [] [] [])\<lparr>UseSSH := True\<rparr>) =
     Inr ''git@github.com:acme/widgets.git.git''"
  using git_suffix_kept [of "''acme''" "''widgets''" "mkConfig [] [] []"]
        git_suffix_kept [of "''acme''" "''widgets''" "(mkConfig [] [] [])\<lparr>UseSSH := True\<rparr>"]
  by (simp add: nameChar_def mkConfig_def)

section \<open>Remote-repo adapter: one scope's failure stays with that scope\<close>

lemma fetchFails_iff: "fetchFails sys cl config refresh name w \<longleftrightarrow> scopeFetch sys cl config refresh name w = None"
  by (auto simp: fetchFails_def cacheMiss_def scopeFetch_def split: sum.splits)

lemma scopeStep_results:
  "snd (scopeStep sys cl config refresh org (w, r)) =
     (case scopeFetch sys cl config refresh (OrgName org) w of
        None \<Rightarrow> r
      | Some repos \<Rightarrow> r(OrgName org \<mapsto> repos))"
  by (auto simp: scopeStep_def scopeFetch_def Let_def split: prod.splits sum.splits)

lemma scopeLoop_append:
  "scopeLoop sys cl config refresh (xs @ ys) st =
     scopeLoop sys cl config refresh ys (scopeLoop sys cl config refresh xs st)"
  by (induction xs arbitrary: st) auto

lemma scopeLoop_other:
  "n \<notin> OrgName ` set orgs \<Longrightarrow> snd (scopeLoop sys cl config refresh orgs (w, r)) n = r n"
proof (induction orgs arbitrary: w r)
  case Nil
  then show ?case by simp
next
  case (Cons org orgs)
  obtain w' r' where st: "scopeStep sys cl config refresh org (w, r) = (w', r')"
    by (cases "scopeStep sys cl config refresh org (w, r)")
  have "r' = snd (scopeStep sys cl config refresh org (w, r))" using st by simp
  then have "r' n = r n"
    using Cons.prems by (auto simp: scopeStep_results split: option.splits)
  moreover have "snd (scopeLoop sys cl config refresh orgs (w', r')) n = r' n"
    using Cons.prems by (intro Cons.IH) auto
  ultimately show ?case by (simp add: st)
qed

lemma scopeLoop_keeps:
  "r n \<noteq> None \<Longrightarrow> snd (scopeLoop sys cl config refresh orgs (w, r)) n \<noteq> None"
proof (induction orgs arbitrary: w r)
  case Nil
  then show ?case by simp
next
  case (Cons org orgs)
  obtain w' r' where st: "scopeStep sys cl config refresh org (w, r) = (w', r')"
    by (cases "scopeStep sys cl config refresh org (w, r)")
  have "r' = snd (scopeStep sys cl config refresh org (w, r))" using st by simp
  then have "r' n \<noteq> None"
    using Cons.prems by (auto simp: scopeStep_results split: option.splits)
  then have "snd (scopeLoop sys cl config refresh orgs (w', r')) n \<noteq> None"
    by (rule Cons.IH)
  then show ?case by (simp add: st)
qed

lemma personalStep_other:
  "personalName sys cl config \<noteq> Some n \<Longrightarrow>
   snd (personalStep sys cl config refresh (w, r)) n = r n"
  by (auto simp: personalStep_def personalName_def Let_def split: sum.splits prod.splits if_splits)

lemma personalStep_keeps:
  "r n \<noteq> None \<Longrightarrow> snd (personalStep sys cl config refresh (w, r)) n \<noteq> None"
  by (auto simp: personalStep_def Let_def split: sum.splits prod.splits if_splits)

lemma after_scope:
  assumes "GetOrganizations config = pre @ t # post"
    and "scopeLoop sys cl config refresh pre (w0, Map.empty) = (w1, r1)"
  shows "ListAllReposWithRefresh sys cl config refresh w0 =
           personalStep sys cl config refresh
             (scopeLoop sys cl config refresh post (scopeStep sys cl config refresh t (w1, r1)))"
  using assms by (simp add: ListAllReposWithRefresh_def scopeLoop_append)

lemma stored_scope_present:
  assumes "GetOrganizations config = pre @ t # post"
    and "scopeLoop sys cl config refresh pre (w0, Map.empty) = (w1, r1)"
    and "scopeFetch sys cl config refresh (OrgName t) w1 = Some repos"
  shows "snd (ListAllReposWithRefresh sys cl config refresh w0) (OrgName t) \<noteq> None"
    and "OrgName t \<notin> OrgName ` set post \<Longrightarrow> personalName sys cl config \<noteq> Some (OrgName t) \<Longrightarrow>
           snd (ListAllReposWithRefresh sys cl config refresh w0) (OrgName t) = Some repos"
proof -
  obtain w2 r2 where st: "scopeStep sys cl config refresh t (w1, r1) = (w2, r2)"
    by (cases "scopeStep sys cl config refresh t (w1, r1)")
  have "r2 = snd (scopeStep sys cl config refresh t (w1, r1))" using st by simp
  then have r2: "r2 (OrgName t) = Some repos"
    using assms(3) by (simp add: scopeStep_results)
  obtain w3 r3 where lp: "scopeLoop sys cl config refresh post (w2, r2) = (w3, r3)"
    by (cases "scopeLoop sys cl config refresh post (w2, r2)")
  have all: "ListAllReposWithRefresh sys cl config refresh w0 =
               personalStep sys cl config refresh (w3, r3)"
    using after_scope [OF assms(1,2)] by (simp add: st lp)
  have r3: "r3 = snd (scopeLoop sys cl config refresh post (w2, r2))" using lp by simp
  have "r3 (OrgName t) \<noteq> None"
    unfolding r3 by (rule scopeLoop_keeps) (simp add: r2)
  then show "snd (ListAllReposWithRefresh sys cl config refresh w0) (OrgName t) \<noteq> None"
    unfolding all by (rule personalStep_keeps)
  assume a: "OrgName t \<notin> OrgName ` set post" and b: "personalName sys cl config \<noteq> Some (OrgName t)"
  have "r3 (OrgName t) = Some repos"
    unfolding r3 using scopeLoop_other [OF a, of sys cl config refresh w2 r2] r2 by simp
  then show "snd (ListAllReposWithRefresh sys cl config refresh w0) (OrgName t) = Some repos"
    unfolding all using personalStep_other [OF b, of refresh w3 r3] by simp
qed

lemma failed_scope_absent:
  assumes "GetOrganizations config = pre @ s # post"
    and "scopeLoop sys cl config refresh pre (w0, Map.empty) = (w1, r1)"
    and "fetchFails sys cl config refresh (OrgName s) w1"
    and "OrgName s \<notin> OrgName ` set (pre @ post)"
    and "personalName sys cl config \<noteq> Some (OrgName s)"
  shows "snd (ListAllReposWithRefresh sys cl config refresh w0) (OrgName s) = None"
proof -
  have r1: "r1 = snd (scopeLoop sys cl config refresh pre (w0, Map.empty))"
    using assms(2) by simp
  have "r1 (OrgName s) = None"
    unfolding r1 using assms(4) by (subst scopeLoop_other) auto
  obtain w2 r2 where st: "scopeStep sys cl config refresh s (w1, r1) = (w2, r2)"
    by (cases "scopeStep sys cl config refresh s (w1, r1)")
  have "r2 = snd (scopeStep sys cl config refresh s (w1, r1))" using st by simp
  then have "r2 = r1"
    using assms(3) by (simp add: scopeStep_results fetchFails_iff)
  obtain w3 r3 where lp: "scopeLoop sys cl config refresh post (w2, r2) = (w3, r3)"
    by (cases "scopeLoop sys cl config refresh post (w2, r2)")
  have r3: "r3 = snd (scopeLoop sys cl config refresh post (w2, r2))" using lp by simp
  have "r3 (OrgName s) = None"
    unfolding r3 using assms(4) \<open>r2 = r1\<close> \<open>r1 (OrgName s) = None\<close>
    by (subst scopeLoop_other) auto
  moreover have "ListAllReposWithRefresh sys cl config refresh w0 =
               personalStep sys cl config refresh (w3, r3)"
    using after_scope [OF assms(1,2)] by (simp add: st lp)
  ultimately show ?thesis
    using personalStep_other [OF assms(5), of refresh w3 r3] by simp
qed

text \<open>
  C1, as amended. Let the scope \<open>s\<close> come after the scopes \<open>pre\<close> and before the scopes
  \<open>post\<close> in the effective scope list, and let its fetch fail in the world the loop has
  reached (cache miss or refresh, and the API attempts end in an error). Then the iteration
  for \<open>s\<close> leaves the result map as it was, the loop goes on with \<open>post\<close> and the personal
  block, and \<open>ListAllReposWithRefresh\<close> returns a map in which every scope whose fetch
  succeeded has an entry: the repositories found for it, unless a later scope of the same
  name or the personal block stored under that name afterwards. The name of \<open>s\<close> is absent
  from the map unless another configured scope has the same name or the personal block
  stores under it (the authenticated user's login equals it).
\<close>

theorem partial_failure_containment:
  assumes "GetOrganizations config = pre @ s # post"
    and "scopeLoop sys cl config refresh pre (w0, Map.empty) = (w1, r1)"
    and "fetchFails sys cl config refresh (OrgName s) w1"
  shows "snd (scopeStep sys cl config refresh s (w1, r1)) = r1 \<and>
         ListAllReposWithRefresh sys cl config refresh w0 =
           personalStep sys cl config refresh
             (scopeLoop sys cl config refresh post (scopeStep sys cl config refresh s (w1, r1))) \<and>
         (OrgName s \<notin> OrgName ` set (pre @ post) \<and>
          personalName sys cl config \<noteq> Some (OrgName s) \<longrightarrow>
            snd (ListAllReposWithRefresh sys cl config refresh w0) (OrgName s) = None) \<and>
         (\<forall>pre' t post' w' r' repos.
            GetOrganizations config = pre' @ t # post' \<and>
            scopeLoop sys cl config refresh pre' (w0, Map.empty) = (w', r') \<and>
            scopeFetch sys cl config refresh (OrgName t) w' = Some repos \<longrightarrow>
              snd (ListAllReposWithRefresh sys cl config refresh w0) (OrgName t) \<noteq> None \<and>
              (OrgName t \<notin> OrgName ` set post' \<and>
               personalName sys cl config \<noteq> Some (OrgName t) \<longrightarrow>
                 snd (ListAllReposWithRefresh sys cl config refresh w0) (OrgName t) = Some repos))"
proof (intro conjI allI impI)
  show "snd (scopeStep sys cl config refresh s (w1, r1)) = r1"
    using assms(3) by (simp add: scopeStep_results fetchFails_iff)
  show "ListAllReposWithRefresh sys cl config refresh w0 =
           personalStep sys cl config refresh
             (scopeLoop sys cl config refresh post (scopeStep sys cl config refresh s (w1, r1)))"
    by (rule after_scope [OF assms(1,2)])
next
  assume "OrgName s \<notin> OrgName ` set (pre @ post) \<and> personalName sys cl config \<noteq> Some (OrgName s)"
  then show "snd (ListAllReposWithRefresh sys cl config refresh w0) (OrgName s) = None"
    using failed_scope_absent [OF assms] by blast
next
  fix pre' t post' w' r' repos
  assume h: "GetOrganizations config = pre' @ t # post' \<and>
            scopeLoop sys cl config refresh pre' (w0, Map.empty) = (w', r') \<and>
            scopeFetch sys cl config refresh (OrgName t) w' = Some repos"
  then show "snd (ListAllReposWithRefresh sys cl config refresh w0) (OrgName t) \<noteq> None"
    using stored_scope_present(1) by blast
  assume "OrgName t \<notin> OrgName ` set post' \<and> personalName sys cl config \<noteq> Some (OrgName t)"
  then show "snd (ListAllReposWithRefresh sys cl config refresh w0) (OrgName t) = Some repos"
    using h stored_scope_present(2) by blast
qed

lemmas adapter_defs = mkConfig_def mkOrg_def GetOrganizations_def sysEx_def worldEx_def
  scopeStep_def cache_Get_def cache_Set_def getCacheFilePath_def timeNow_def
  fetchFromAPI_def GetTokenForOrg_def effectiveTimeout_def orgListError_def
  fetchFails_def cacheMiss_def personalStep_def ListAllReposWithRefresh_def Let_def

lemma two_orgs: "GetOrganizations cfgTwo = [mkOrg ''alpha''] @ mkOrg ''beta'' # []"
  by (simp add: cfgTwo_def mkConfig_def GetOrganizations_def)

lemma beta_fails:
  "fetchFails sysEx clBetaDown cfgTwo False ''beta''
     (fst (scopeLoop sysEx clBetaDown cfgTwo False [mkOrg ''alpha''] (worldEx, Map.empty)))"
  by (simp add: adapter_defs cfgTwo_def clBetaDown_def err500_def)

theorem partial_failure_containment_witness:
  "GetOrganizations cfgTwo = [mkOrg ''alpha''] @ mkOrg ''beta'' # [] \<and>
   fetchFails sysEx clBetaDown cfgTwo False ''beta''
     (fst (scopeLoop sysEx clBetaDown cfgTwo False [mkOrg ''alpha''] (worldEx, Map.empty))) \<and>
   snd (ListAllReposWithRefresh sysEx clBetaDown cfgTwo False worldEx) ''alpha'' =
     Some [mkRepo ''widgets'' False False] \<and>
   snd (ListAllReposWithRefresh sysEx clBetaDown cfgTwo False worldEx) ''beta'' = None"
proof -
  let ?st = "scopeLoop sysEx clBetaDown cfgTwo False [mkOrg ''alpha''] (worldEx, Map.empty)"
  have name: "OrgName (mkOrg ''beta'') = ''beta''" by (simp add: mkOrg_def)
  have f: "fetchFails sysEx clBetaDown cfgTwo False (OrgName (mkOrg ''beta'')) (fst ?st)"
    using beta_fails by (simp only: name)
  have absent: "OrgName (mkOrg ''beta'') \<notin> OrgName ` set ([mkOrg ''alpha''] @ []) \<and>
      personalName sysEx clBetaDown cfgTwo \<noteq> Some (OrgName (mkOrg ''beta''))"
    by (simp add: mkOrg_def personalName_def cfgTwo_def mkConfig_def)
  have st: "?st = (fst ?st, snd ?st)" by simp
  have "snd (ListAllReposWithRefresh sysEx clBetaDown cfgTwo False worldEx)
          (OrgName (mkOrg ''beta'')) = None"
    using partial_failure_containment [OF two_orgs st f] absent by blast
  then have "snd (ListAllReposWithRefresh sysEx clBetaDown cfgTwo False worldEx) ''beta'' = None"
    by (simp only: name)
  moreover have "snd (ListAllReposWithRefresh sysEx clBetaDown cfgTwo False worldEx) ''alpha'' =
     Some [mkRepo ''widgets'' False False]"
    by (simp add: adapter_defs cfgTwo_def clBetaDown_def err500_def)
  ultimately show ?thesis using two_orgs beta_fails by simp
qed

text \<open>
  C1 as stated fails when the personal block stores under the failed scope's name: the
  fetch of scope \<open>beta\<close> fails (cache miss, the organization endpoint answers 404, the
  user endpoint rejects the scope's token), the global token belongs to the user \<open>beta\<close>,
  and the returned map has an entry \<open>beta\<close>.
\<close>

theorem personal_name_counterexample:
  "GetOrganizations cfgPersonal =
     [mkOrg ''alpha''] @ \<lparr>OrgName = ''beta'', DisplayName = [], OrgToken = ''stale''\<rparr> # [] \<and>
   fetchFails sysEx clPersonal cfgPersonal False ''beta''
     (fst (scopeLoop sysEx clPersonal cfgPersonal False [mkOrg ''alpha''] (worldEx, Map.empty))) \<and>
   isl (ListOrgReposWithToken clPersonal ''beta'' ''stale'') \<and>
   isl (ListUserReposWithToken clPersonal ''beta'' ''stale'') \<and>
   snd (ListAllReposWithRefresh sysEx clPersonal cfgPersonal False worldEx) ''beta'' =
     Some [mkRepo ''dotfiles'' False False]"
  by (simp add: adapter_defs cfgPersonal_def clPersonal_def err404_def)

section \<open>Remote-repo adapter: when the user endpoint is tried\<close>

text \<open>
  C9 at a failing input. The scope is named \<open>area404\<close>; the organization endpoint fails
  with status 500, which is not a not-found condition, and the provider's own message
  does not contain 404. The client wraps the message with the scope's name, the adapter
  finds the digits 404 in the text, tries the user endpoint, and the scope is in the
  result instead of being skipped.
\<close>

theorem retry_on_non404_evaluation:
  "StatusCode err500 = 500 \<and>
   ListOrgReposWithToken clRetry ''area404'' [] = Inl (orgListError ''area404'' err500) \<and>
   \<not> Contains (ErrorText err500) ''404'' \<and>
   snd (ListAllReposWithRefresh sysEx clRetry cfg404 False worldEx) ''area404'' =
     Some [mkRepo ''widgets'' False False]"
  by (simp add: adapter_defs cfg404_def clRetry_def err500_def)

section \<open>Lister: archived and disabled repositories\<close>

lemma repoStep_dead:
  "\<not> live repo \<Longrightarrow> repoStep sys w config displayName scope repo st = st"
  by (auto simp: repoStep_def live_def split: prod.splits)

lemma repoLoop_live:
  "repoLoop sys w config displayName scope (filter live repos) st =
   repoLoop sys w config displayName scope repos st"
  by (induction repos arbitrary: st) (auto simp: repoStep_dead)

lemma orgLoop_live:
  "orgLoop sys w config (liveOnly allRepos) orgs st = orgLoop sys w config allRepos orgs st"
proof (induction orgs arbitrary: st)
  case Nil
  then show ?case by simp
next
  case (Cons org orgs)
  show ?case
  proof (cases "allRepos (OrgName org)")
    case None
    then show ?thesis using Cons.IH by (simp add: liveOnly_def)
  next
    case (Some repos)
    then have "liveOnly allRepos (OrgName org) = Some (filter live repos)"
      by (simp add: liveOnly_def)
    then show ?thesis using Some Cons.IH by (simp add: repoLoop_live)
  qed
qed

lemma personalLoop_live:
  "personalLoop sys cl w config (liveOnly allRepos) st = personalLoop sys cl w config allRepos st"
  by (auto simp: personalLoop_def liveOnly_def repoLoop_live Let_def split: sum.splits option.splits)

text \<open>
  C7. The catalog built from a fetched result map is the catalog built from that map with
  every archived and every disabled repository removed, whatever the configuration
  (show-uncloned included) and whatever exists on disk: such a repository never
  contributes an entry. The same holds for \<open>listGitHub\<close> as a whole.
\<close>

theorem archived_disabled_never_listed:
  "catalogOf sys cl w config allRepos = catalogOf sys cl w config (liveOnly allRepos) \<and>
   snd (listGitHub sys cl config refresh w) =
     (if GetOrganizations config = [] then \<lparr>Directory = Map.empty, OrderedIndex = []\<rparr>
      else catalogOf sys cl (fst (ListAllReposWithRefresh sys cl config refresh w)) config
             (liveOnly (snd (ListAllReposWithRefresh sys cl config refresh w))))"
  by (simp add: catalogOf_def listGitHub_def orgLoop_live personalLoop_live split: prod.splits)

lemmas lister_defs = catalogOf_def personalLoop_def repoStep_def clonePathOf_def githubKey_def
  ShouldShowUncloned_def ShouldShowDescription_def homeOrEmpty_def mkRepo_def Let_def

lemma acme_catalog:
  "OrderedIndex (catalogOf sysEx clNone worldEx cfgAcme [''acme'' \<mapsto> reposAcme]) =
     [''github:acme/gadgets'', ''github:acme/tools'']"
  by (simp add: lister_defs cfgAcme_def reposAcme_def clNone_def mkConfig_def mkOrg_def
        GetOrganizations_def sysEx_def worldEx_def)

lemma acme_catalog_hide:
  "OrderedIndex (catalogOf sysEx clNone worldCloned cfgHide [''acme'' \<mapsto> reposAcme]) =
     [''github:acme/gadgets'']"
  by (simp add: lister_defs cfgHide_def cfgAcme_def reposAcme_def clNone_def mkConfig_def mkOrg_def
        GetOrganizations_def sysEx_def worldEx_def worldCloned_def)

theorem archived_disabled_never_listed_witness:
  "OrderedIndex (catalogOf sysEx clNone worldEx cfgAcme (liveOnly [''acme'' \<mapsto> reposAcme])) =
     [''github:acme/gadgets'', ''github:acme/tools''] \<and>
   OrderedIndex (catalogOf sysEx clNone worldCloned cfgHide (liveOnly [''acme'' \<mapsto> reposAcme])) =
     [''github:acme/gadgets'']"
  using archived_disabled_never_listed [of sysEx clNone worldEx cfgAcme "[''acme'' \<mapsto> reposAcme]"]
        archived_disabled_never_listed [of sysEx clNone worldCloned cfgHide "[''acme'' \<mapsto> reposAcme]"]
        acme_catalog acme_catalog_hide
  by simp


section \<open>Lister: ordered index and directory\<close>

lemma repoStep_shown:
  "repoStep sys w config displayName scope repo (oi, dir) =
     (if shown sys w config scope repo
      then (oi @ [githubKey scope repo],
            dir(githubKey scope repo \<mapsto> the (snd (repoStep sys w config displayName scope repo (oi, dir)) (githubKey scope repo))))
      else (oi, dir))"
  by (auto simp: repoStep_def shown_def Let_def)

lemma repoLoop_index:
  "fst (repoLoop sys w config displayName scope repos (oi, dir)) =
     oi @ map (githubKey scope) (filter (shown sys w config scope) repos) \<and>
   dom (snd (repoLoop sys w config displayName scope repos (oi, dir))) =
     dom dir \<union> set (map (githubKey scope) (filter (shown sys w config scope) repos))"
proof (induction repos arbitrary: oi dir)
  case Nil
  then show ?case by simp
next
  case (Cons repo repos)
  show ?case
  proof (cases "shown sys w config scope repo")
    case True
    then obtain v where
      "repoStep sys w config displayName scope repo (oi, dir) =
         (oi @ [githubKey scope repo], dir(githubKey scope repo \<mapsto> v))"
      using repoStep_shown [of sys w config displayName scope repo oi dir] by auto
    then show ?thesis using True Cons.IH by auto
  next
    case False
    then have "repoStep sys w config displayName scope repo (oi, dir) = (oi, dir)"
      using repoStep_shown [of sys w config displayName scope repo oi dir] by simp
    then show ?thesis using False Cons.IH by simp
  qed
qed

lemma orgLoop_index:
  "fst (orgLoop sys w config allRepos orgs (oi, dir)) =
     oi @ concat (map (\<lambda>org. scopeKeys sys w config allRepos (OrgName org)) orgs) \<and>
   dom (snd (orgLoop sys w config allRepos orgs (oi, dir))) =
     dom dir \<union> set (concat (map (\<lambda>org. scopeKeys sys w config allRepos (OrgName org)) orgs))"
proof (induction orgs arbitrary: oi dir)
  case Nil
  then show ?case by simp
next
  case (Cons org orgs)
  show ?case
  proof (cases "allRepos (OrgName org)")
    case None
    then show ?thesis using Cons.IH by (simp add: scopeKeys_def)
  next
    case (Some repos)
    let ?dn = "if DisplayName org = [] then OrgName org else DisplayName org"
    obtain oi' dir' where st:
      "repoLoop sys w config ?dn (OrgName org) repos (oi, dir) = (oi', dir')"
      by (cases "repoLoop sys w config ?dn (OrgName org) repos (oi, dir)")
    have "oi' = oi @ scopeKeys sys w config allRepos (OrgName org)"
      and "dom dir' = dom dir \<union> set (scopeKeys sys w config allRepos (OrgName org))"
      using repoLoop_index [of sys w config ?dn "OrgName org" repos oi dir] st Some
      by (simp_all add: scopeKeys_def)
    then show ?thesis using Some st Cons.IH [of oi' dir'] by (simp add: Un_assoc)
  qed
qed

lemma personalLoop_index:
  "fst (personalLoop sys cl w config allRepos (oi, dir)) =
     oi @ personalKeys sys cl w config allRepos \<and>
   dom (snd (personalLoop sys cl w config allRepos (oi, dir))) =
     dom dir \<union> set (personalKeys sys cl w config allRepos)"
proof (cases "personalName sys cl config")
  case None
  then have "personalLoop sys cl w config allRepos (oi, dir) = (oi, dir)"
    by (auto simp: personalLoop_def personalName_def Let_def split: sum.splits if_splits)
  then show ?thesis using None by (simp add: personalKeys_def)
next
  case (Some u)
  then have pl: "personalLoop sys cl w config allRepos (oi, dir) =
           (case allRepos u of None \<Rightarrow> (oi, dir)
            | Some repos \<Rightarrow> repoLoop sys w config u u repos (oi, dir))"
    by (auto simp: personalLoop_def personalName_def Let_def split: sum.splits if_splits)
  show ?thesis
  proof (cases "allRepos u")
    case None
    then show ?thesis using pl Some by (simp add: personalKeys_def scopeKeys_def)
  next
    case (Some repos)
    then show ?thesis
      using pl \<open>personalName sys cl config = Some u\<close>
        repoLoop_index [of sys w config u u repos oi dir]
      by (simp add: personalKeys_def scopeKeys_def)
  qed
qed

lemma catalog_keys:
  "OrderedIndex (catalogOf sys cl w config allRepos) =
     concat (map (\<lambda>org. scopeKeys sys w config allRepos (OrgName org)) (GetOrganizations config))
     @ personalKeys sys cl w config allRepos \<and>
   dom (Directory (catalogOf sys cl w config allRepos)) =
     set (OrderedIndex (catalogOf sys cl w config allRepos))"
proof -
  let ?orgs = "GetOrganizations config"
  obtain oi dir where a: "orgLoop sys w config allRepos ?orgs ([], Map.empty) = (oi, dir)"
    by (cases "orgLoop sys w config allRepos ?orgs ([], Map.empty)")
  obtain oi' dir' where b: "personalLoop sys cl w config allRepos (oi, dir) = (oi', dir')"
    by (cases "personalLoop sys cl w config allRepos (oi, dir)")
  have 1: "oi = concat (map (\<lambda>org. scopeKeys sys w config allRepos (OrgName org)) ?orgs)"
    and 2: "dom dir = set oi"
    using orgLoop_index [of sys w config allRepos ?orgs "[]" Map.empty] a by simp_all
  have 3: "oi' = oi @ personalKeys sys cl w config allRepos"
    and 4: "dom dir' = dom dir \<union> set (personalKeys sys cl w config allRepos)"
    using personalLoop_index [of sys cl w config allRepos oi dir] b by simp_all
  have cat: "catalogOf sys cl w config allRepos = \<lparr>Directory = dir', OrderedIndex = oi'\<rparr>"
    by (simp add: catalogOf_def a b)
  show ?thesis unfolding cat using 1 2 3 4 by simp
qed

lemma key_scope:
  assumes "CHR ''/'' \<notin> set a"
  shows "takeWhile (\<lambda>c. c \<noteq> CHR ''/'') (drop 7 (githubKey a repo)) = a"
proof -
  have "drop 7 (githubKey a repo) = a @ CHR ''/'' # Name repo"
    by (simp add: githubKey_def)
  moreover have "takeWhile (\<lambda>c. c \<noteq> CHR ''/'') (a @ CHR ''/'' # Name repo) = a"
    using assms by (subst takeWhile_append2) auto
  ultimately show ?thesis by simp
qed

lemma scopeKeys_scope:
  assumes "k \<in> set (scopeKeys sys w config allRepos a)" and "CHR ''/'' \<notin> set a"
  shows "takeWhile (\<lambda>c. c \<noteq> CHR ''/'') (drop 7 k) = a"
  using assms by (auto simp: scopeKeys_def key_scope split: option.splits)

lemma githubKey_inj: "githubKey a r = githubKey a r' \<Longrightarrow> Name r = Name r'"
  by (simp add: githubKey_def)

lemma scopeKeys_distinct:
  assumes "\<forall>repos. allRepos a = Some repos \<longrightarrow> distinct (map Name repos)"
  shows "distinct (scopeKeys sys w config allRepos a)"
proof (cases "allRepos a")
  case None
  then show ?thesis by (simp add: scopeKeys_def)
next
  case (Some repos)
  then have d: "distinct (map Name repos)" using assms by simp
  have "distinct (map Name (filter (shown sys w config a) repos))"
    using d by (rule distinct_map_filter)
  then have "distinct (map (githubKey a) (filter (shown sys w config a) repos))"
    by (auto simp: distinct_map inj_on_def dest: githubKey_inj)
  then show ?thesis using Some by (simp add: scopeKeys_def)
qed

lemma orgKeys_scope:
  assumes "k \<in> set (concat (map (\<lambda>org. scopeKeys sys w config allRepos (OrgName org)) orgs))"
    and "\<forall>org \<in> set orgs. CHR ''/'' \<notin> set (OrgName org)"
  shows "takeWhile (\<lambda>c. c \<noteq> CHR ''/'') (drop 7 k) \<in> OrgName ` set orgs"
  using assms by (auto dest: scopeKeys_scope)

lemma orgKeys_distinct:
  assumes "distinct (map OrgName orgs)"
    and "\<forall>org \<in> set orgs. CHR ''/'' \<notin> set (OrgName org)"
    and "\<forall>n repos. allRepos n = Some repos \<longrightarrow> distinct (map Name repos)"
  shows "distinct (concat (map (\<lambda>org. scopeKeys sys w config allRepos (OrgName org)) orgs))"
  using assms(1,2)
proof (induction orgs)
  case Nil
  then show ?case by simp
next
  case (Cons org orgs)
  let ?rest = "concat (map (\<lambda>org. scopeKeys sys w config allRepos (OrgName org)) orgs)"
  have d1: "distinct (scopeKeys sys w config allRepos (OrgName org))"
    using assms(3) by (intro scopeKeys_distinct) blast
  have d2: "distinct ?rest" using Cons by simp
  have "set (scopeKeys sys w config allRepos (OrgName org)) \<inter> set ?rest = {}"
  proof (rule ccontr)
    assume "set (scopeKeys sys w config allRepos (OrgName org)) \<inter> set ?rest \<noteq> {}"
    then obtain k where k1: "k \<in> set (scopeKeys sys w config allRepos (OrgName org))"
      and k2: "k \<in> set ?rest" by blast
    have "takeWhile (\<lambda>c. c \<noteq> CHR ''/'') (drop 7 k) = OrgName org"
      using k1 Cons.prems(2) by (intro scopeKeys_scope) auto
    moreover have "takeWhile (\<lambda>c. c \<noteq> CHR ''/'') (drop 7 k) \<in> OrgName ` set orgs"
      using k2 Cons.prems(2) by (intro orgKeys_scope) auto
    ultimately show False using Cons.prems(1) by auto
  qed
  then show ?case using d1 d2 by simp
qed

text \<open>
  C8, as amended. For every configuration and every fetched result map, the keys in
  \<open>OrderedIndex\<close> are exactly the keys of \<open>Directory\<close>; \<open>OrderedIndex\<close> is free of
  duplicates if and only if its length equals the number of entries of \<open>Directory\<close>; and
  both hold when the scope names are pairwise distinct and without \<open>/\<close>, the personal
  block's username (if it gets one) is none of the scope names and without \<open>/\<close>, and the
  repositories fetched for a scope have pairwise distinct names.
\<close>

theorem catalog_index_directory:
  "set (OrderedIndex (catalogOf sys cl w config allRepos)) =
     dom (Directory (catalogOf sys cl w config allRepos)) \<and>
   (distinct (OrderedIndex (catalogOf sys cl w config allRepos)) \<longleftrightarrow>
      length (OrderedIndex (catalogOf sys cl w config allRepos)) =
        card (dom (Directory (catalogOf sys cl w config allRepos)))) \<and>
   (distinct (map OrgName (GetOrganizations config)) \<and>
    (\<forall>org \<in> set (GetOrganizations config). CHR ''/'' \<notin> set (OrgName org)) \<and>
    (\<forall>u. personalName sys cl config = Some u \<longrightarrow>
           u \<notin> OrgName ` set (GetOrganizations config) \<and> CHR ''/'' \<notin> set u) \<and>
    (\<forall>n repos. allRepos n = Some repos \<longrightarrow> distinct (map Name repos)) \<longrightarrow>
      distinct (OrderedIndex (catalogOf sys cl w config allRepos)) \<and>
      length (OrderedIndex (catalogOf sys cl w config allRepos)) =
        card (dom (Directory (catalogOf sys cl w config allRepos))))"
proof -
  let ?c = "catalogOf sys cl w config allRepos"
  let ?orgs = "GetOrganizations config"
  let ?ok = "concat (map (\<lambda>org. scopeKeys sys w config allRepos (OrgName org)) ?orgs)"
  let ?pk = "personalKeys sys cl w config allRepos"
  have idx: "OrderedIndex ?c = ?ok @ ?pk" and dm: "dom (Directory ?c) = set (OrderedIndex ?c)"
    using catalog_keys [of sys cl w config allRepos] by simp_all
  have iff: "distinct (OrderedIndex ?c) \<longleftrightarrow> length (OrderedIndex ?c) = card (dom (Directory ?c))"
    unfolding dm using card_distinct distinct_card by metis
  have cond: "distinct (OrderedIndex ?c)"
    if h: "distinct (map OrgName ?orgs)"
      "\<forall>org \<in> set ?orgs. CHR ''/'' \<notin> set (OrgName org)"
      "\<forall>u. personalName sys cl config = Some u \<longrightarrow>
           u \<notin> OrgName ` set ?orgs \<and> CHR ''/'' \<notin> set u"
      "\<forall>n repos. allRepos n = Some repos \<longrightarrow> distinct (map Name repos)"
  proof -
    have d1: "distinct ?ok" using h(1,2,4) by (rule orgKeys_distinct)
    have d2: "distinct ?pk"
      using h(4) by (auto simp: personalKeys_def split: option.splits intro: scopeKeys_distinct)
    have "set ?ok \<inter> set ?pk = {}"
    proof (rule ccontr)
      assume "set ?ok \<inter> set ?pk \<noteq> {}"
      then obtain k where k1: "k \<in> set ?ok" and k2: "k \<in> set ?pk" by blast
      from k2 obtain u where u: "personalName sys cl config = Some u"
        and ku: "k \<in> set (scopeKeys sys w config allRepos u)"
        by (cases "personalName sys cl config") (auto simp: personalKeys_def)
      have "takeWhile (\<lambda>c. c \<noteq> CHR ''/'') (drop 7 k) = u"
        using ku h(3) u by (intro scopeKeys_scope) auto
      moreover have "takeWhile (\<lambda>c. c \<noteq> CHR ''/'') (drop 7 k) \<in> OrgName ` set ?orgs"
        using k1 h(2) by (rule orgKeys_scope)
      ultimately show False using h(3) u by auto
    qed
    then show ?thesis unfolding idx using d1 d2 by simp
  qed
  show ?thesis using dm iff cond by blast
qed

theorem catalog_index_directory_witness:
  "distinct (map OrgName (GetOrganizations cfgAcme)) \<and>
   CHR ''/'' \<notin> set ''acme'' \<and>
   personalName sysEx clNone cfgAcme = None \<and>
   distinct (map Name reposAcme) \<and>
   OrderedIndex (catalogOf sysEx clNone worldEx cfgAcme [''acme'' \<mapsto> reposAcme]) =
     [''github:acme/gadgets'', ''github:acme/tools''] \<and>
   dom (Directory (catalogOf sysEx clNone worldEx cfgAcme [''acme'' \<mapsto> reposAcme])) =
     {''github:acme/gadgets'', ''github:acme/tools''} \<and>
   length (OrderedIndex (catalogOf sysEx clNone worldEx cfgAcme [''acme'' \<mapsto> reposAcme])) =
     card (dom (Directory (catalogOf sysEx clNone worldEx cfgAcme [''acme'' \<mapsto> reposAcme])))"
proof -
  let ?c = "catalogOf sysEx clNone worldEx cfgAcme [''acme'' \<mapsto> reposAcme]"
  have orgs: "GetOrganizations cfgAcme = [mkOrg ''acme'']"
    by (simp add: cfgAcme_def mkConfig_def GetOrganizations_def)
  have a: "distinct (map OrgName (GetOrganizations cfgAcme))" by (simp add: orgs)
  have b: "\<forall>org \<in> set (GetOrganizations cfgAcme). CHR ''/'' \<notin> set (OrgName org)"
    by (simp add: orgs mkOrg_def)
  have c: "personalName sysEx clNone cfgAcme = None"
    by (simp add: personalName_def cfgAcme_def mkConfig_def)
  have d: "distinct (map Name reposAcme)" by (simp add: reposAcme_def mkRepo_def)
  have e: "\<forall>n repos. [''acme'' \<mapsto> reposAcme] n = Some repos \<longrightarrow> distinct (map Name repos)"
    using d by (auto split: if_splits)
  note T = catalog_index_directory [of sysEx clNone worldEx cfgAcme "[''acme'' \<mapsto> reposAcme]"]
  have len: "length (OrderedIndex ?c) = card (dom (Directory ?c))"
    using T a b c e by simp
  have dm: "dom (Directory ?c) = set (OrderedIndex ?c)" using T by simp
  show ?thesis using a c d len dm acme_catalog by auto
qed

text \<open>
  C8 as stated fails when the only configured scope is the authenticated user and
  personal repositories are included: the scope's entry in the fetched map is walked by
  the organization loop and again by the personal loop, and every key is in
  \<open>OrderedIndex\<close> twice.
\<close>

theorem self_scope_counterexample:
  "OrderedIndex (snd (listGitHub sysEx clPersonal cfgSelf False worldEx)) =
     [''github:beta/dotfiles'', ''github:beta/dotfiles''] \<and>
   dom (Directory (snd (listGitHub sysEx clPersonal cfgSelf False worldEx))) =
     {''github:beta/dotfiles''}"
  by (simp add: listGitHub_def lister_defs adapter_defs cfgSelf_def clPersonal_def err404_def)

section \<open>Connector: resolving an uncloned repository\<close>

lemma Split_no_sep: "sep \<notin> set a \<Longrightarrow> Split a sep = [a]"
  by (induction a) auto

lemma Split_at_sep: "sep \<notin> set a \<Longrightarrow> Split (a @ sep # rest) sep = a # Split rest sep"
  by (induction a) auto

lemma Split_cloneCommand:
  assumes "CHR '' '' \<notin> set url" and "CHR '' '' \<notin> set path"
  shows "Split (cloneCommand url path) CHR '' '' =
           [''git'', ''clone'', url, path, ''&&'', ''cd'', path]"
proof -
  have "cloneCommand url path =
          ''git'' @ CHR '' '' # (''clone'' @ CHR '' '' # (url @ CHR '' '' # (path @ CHR '' '' #
            (''&&'' @ CHR '' '' # (''cd'' @ CHR '' '' # path)))))"
    by (simp add: cloneCommand_def)
  then show ?thesis
    using assms by (simp only: Split_at_sep Split_no_sep) (simp add: Split_at_sep Split_no_sep)
qed

lemma cloneCommand_is_clone:
  "cloneCommand url path \<noteq> [] \<and> Contains (cloneCommand url path) ''git clone''"
  by (simp add: cloneCommand_def)

text \<open>
  What the strategy does for a startup command \<open>git clone url path && cd path\<close> whose
  \<open>url\<close> and \<open>path\<close> are free of spaces: a resolution that succeeds returns the session
  with the path set to \<open>path\<close> and the startup command cleared, flagged found, new and
  for the recency index; \<open>git.Clone\<close> has run if and only if \<open>path\<close> did not exist.
\<close>

lemma githubStrategy_clone:
  assumes "StartupCommand session = cloneCommand url path"
    and "CHR '' '' \<notin> set url" and "CHR '' '' \<notin> set path"
    and "githubStrategy sys (Some session) w = (Inr conn, w')"
  shows "conn = \<lparr>Found = True, Session = session\<lparr>Path := path, StartupCommand := []\<rparr>,
                  New = True, AddToZoxide = True\<rparr> \<and>
         (files w path \<noteq> None \<longrightarrow> w' = w) \<and>
         (files w path = None \<longrightarrow>
            (\<exists>w''. gitClone sys url (dirName sys path) (baseName sys path) w = Inr w'' \<and>
                   w' = w''\<lparr>cloneCalls := cloneCalls w'' @
                              [(url, dirName sys path, baseName sys path)]\<rparr>))"
proof -
  have parts: "Split (StartupCommand session) CHR '' '' =
                 [''git'', ''clone'', url, path, ''&&'', ''cd'', path]"
    using assms(1-3) by (simp add: Split_cloneCommand)
  have c: "StartupCommand session \<noteq> [] \<and> Contains (StartupCommand session) ''git clone''"
    using assms(1) cloneCommand_is_clone by simp
  show ?thesis
    using assms(4) c
    by (auto simp: githubStrategy_def parts runClone_def Let_def split: if_splits sum.splits)
qed

text \<open>
  C4 at a failing input. With the clone directory \<open>/home/u/my repos\<close>, \<open>listGitHub\<close>
  gives the uncloned repository \<open>acme/widgets\<close> a startup command of the stated form whose
  clone target is \<open>/home/u/my repos/github.com/acme/widgets\<close>. The strategy splits the
  command at spaces, takes \<open>/home/u/my\<close> for the target, clones into \<open>/home/u\<close> under
  the name \<open>my\<close>, and returns a session whose path is \<open>/home/u/my\<close>: not the clone target
  that C4 requires.
\<close>

theorem space_in_path_evaluation:
  "Directory (catalogOf sysEx clNone worldEx cfgSpace [''acme'' \<mapsto> [mkRepo ''widgets'' False False]])
     ''github:acme/widgets'' = Some sessionSpace \<and>
   githubStrategy sysEx (Some sessionSpace) worldEx =
     (Inr \<lparr>Found = True,
           Session = sessionSpace\<lparr>Path := ''/home/u/my'', StartupCommand := []\<rparr>,
           New = True, AddToZoxide = True\<rparr>,
      worldEx\<lparr>files := [''/home/u/my'' \<mapsto> Unreadable],
              cloneCalls := [(''https://github.com/acme/widgets.git'', ''/home/u'', ''my'')]\<rparr>)"
  by (simp add: catalogOf_def personalLoop_def repoStep_def clonePathOf_def githubKey_def
        ShouldShowUncloned_def ShouldShowDescription_def homeOrEmpty_def mkRepo_def Let_def
        cfgSpace_def cfgAcme_def clNone_def mkConfig_def mkOrg_def GetOrganizations_def
        sysEx_def worldEx_def sessionSpace_def cloneCommand_def githubStrategy_def runClone_def
        cloneOk_def dirSlash_def baseSlash_def)

text \<open>The same repository under the default clone directory resolves as C4 says.\<close>

lemma plain_session_example:
  "githubStrategy sysEx (Some sessionPlain) worldEx =
     (Inr \<lparr>Found = True,
           Session = sessionPlain\<lparr>Path := ''/home/u/git/github.com/acme/widgets'',
                                  StartupCommand := []\<rparr>,
           New = True, AddToZoxide = True\<rparr>,
      worldEx\<lparr>files := [''/home/u/git/github.com/acme/widgets'' \<mapsto> Unreadable],
              cloneCalls := [(''https://github.com/acme/widgets.git'',
                              ''/home/u/git/github.com/acme'', ''widgets'')]\<rparr>)"
  by (simp add: sysEx_def worldEx_def sessionPlain_def cloneCommand_def githubStrategy_def
        runClone_def cloneOk_def dirSlash_def baseSlash_def Let_def)

end
